theory Spec2Isabelle
  imports Main "HOL-Library.Word" "HOL-Library.Char_ord" "HOL-Library.List_Lexorder"
begin

unbundle bit_operations_syntax

section \<open>The gRPC-Web transport of connect-web (connect-transport.ts)\<close>

text \<open>
  A shallow embedding of \<^verbatim>\<open>packages/connect-web/src/connect-transport.ts\<close>.
  A \<^verbatim>\<open>Uint8Array\<close> is a list of 8-bit words, a JavaScript string a \<^typ>\<open>string\<close>
  (code units 0..255, which is what \<^verbatim>\<open>String.fromCharCode\<close> yields on bytes), a JavaScript
  number that holds an integer an \<^typ>\<open>int\<close> or \<^typ>\<open>nat\<close>, with the 32-bit conversions
  of \<^verbatim>\<open><<\<close> and \<^verbatim>\<open>>>>\<close> written out.
\<close>

subsection \<open>Bytes, typed arrays and frames\<close>

type_synonym byte = "8 word"
type_synonym bytes = "byte list"

text \<open>
  \<^verbatim>\<open>TypedArray.prototype.subarray(begin, end)\<close>: a negative index counts from the end,
  every index is clamped to the array, and an end before the begin gives the empty array.
\<close>

definition relativeIndex :: "nat \<Rightarrow> int \<Rightarrow> nat" where
  "relativeIndex len i = (if i < 0 then nat (max (int len + i) 0) else nat (min i (int len)))"

definition subarray :: "bytes \<Rightarrow> int \<Rightarrow> int \<Rightarrow> bytes" where
  "subarray xs b e =
     (let from = relativeIndex (length xs) b; to = relativeIndex (length xs) e
      in take (to - from) (drop from xs))"

definition subarray_from :: "bytes \<Rightarrow> int \<Rightarrow> bytes" where
  "subarray_from xs b = drop (relativeIndex (length xs) b) xs"

text \<open>\<^verbatim>\<open>enum FrameType { DATA = 0x00, TRAILER = 0x80 }\<close> and the two frame interfaces.\<close>

definition FrameType_DATA :: byte where
  "FrameType_DATA = 0x00"

definition FrameType_TRAILER :: byte where
  "FrameType_TRAILER = 0x80"

datatype Frame = DataFrame bytes | TrailerFrame bytes

subsection \<open>Errors\<close>

text \<open>
  Modelled from the spec: the enumeration \<^verbatim>\<open>StatusCode\<close> of \<^verbatim>\<open>status-code.ts\<close>, which
  is not among the sources. The spec fixes its values as the canonical gRPC codes 0..16, with
  \<^verbatim>\<open>Ok = 0\<close> and \<^verbatim>\<open>DataLoss = 15\<close>. \<^verbatim>\<open>StatusCode[code]\<close> is the reverse mapping of
  a TypeScript numeric enum: defined exactly on the enumeration's values.
\<close>

definition StatusCode_Ok :: int where
  "StatusCode_Ok = 0"

definition StatusCode_DataLoss :: int where
  "StatusCode_DataLoss = 15"

definition StatusCode_defined :: "int \<Rightarrow> bool" where
  "StatusCode_defined c = (0 \<le> c \<and> c \<le> 16)"

text \<open>
  A \<^verbatim>\<open>ConnectError\<close> is recorded as the arguments its constructor was called with: the
  message, the code when one was passed, the details when they were passed. A detail is a
  protobuf \<^verbatim>\<open>Any\<close>: a type URL and a value.
\<close>

type_synonym any = "string \<times> bytes"

datatype ConnectError = ConnectError string "int option" "any list option"

text \<open>
  What a promise is rejected with, as far as \<^verbatim>\<open>close\<close> distinguishes it: \<^verbatim>\<open>undefined\<close>,
  an instance of \<^verbatim>\<open>ConnectError\<close>, or anything else, of which only \<^verbatim>\<open>String(reason)\<close>
  is used.
\<close>

datatype reason = Undefined | IsConnectError ConnectError | Other string

subsection \<open>The response body stream\<close>

text \<open>
  A \<^verbatim>\<open>ReadableStream<Uint8Array>\<close> that ends is the list of the chunks it still has to
  deliver and the way it ends: \<^verbatim>\<open>read()\<close> resolves with \<^verbatim>\<open>done\<close> once the chunks are
  used up, or is rejected.
\<close>

datatype stream_end = Done | Errored reason

type_synonym stream = "bytes list \<times> stream_end"

text \<open>The state a frame reader closes over: \<^verbatim>\<open>buffer\<close> and the stream behind \<^verbatim>\<open>reader\<close>.\<close>

type_synonym reader = "bytes \<times> stream"

definition premature_end :: reason where
  "premature_end = IsConnectError (ConnectError ''premature end of response body'' (Some StatusCode_DataLoss) None)"

definition stream_failure :: "stream_end \<Rightarrow> reason" where
  "stream_failure e = (case e of Done \<Rightarrow> premature_end | Errored r \<Rightarrow> r)"

subsection \<open>Encoding the request body (send)\<close>

text \<open>
  The loop of \<^verbatim>\<open>send\<close> that writes the length, for \<^verbatim>\<open>i\<close> from 4 down to 1:
  \<^verbatim>\<open>body[i] = dataLength % 256; dataLength >>>= 8\<close>. The counter \<^verbatim>\<open>i\<close> is \<open>Suc j\<close>;
  \<^verbatim>\<open>>>>\<close> converts its left operand to an unsigned 32-bit integer first.
\<close>

definition ushr8 :: "nat \<Rightarrow> nat" where
  "ushr8 n = (n mod 2 ^ 32) div 2 ^ 8"

fun send_length :: "nat \<Rightarrow> nat \<Rightarrow> bytes \<Rightarrow> bytes" where
  "send_length dataLength 0 body = body"
| "send_length dataLength (Suc j) body =
     send_length (ushr8 dataLength) j (body[Suc j := of_nat (dataLength mod 256)])"

text \<open>
  The \<^verbatim>\<open>body\<close> that \<^verbatim>\<open>send\<close> hands to \<^verbatim>\<open>fetch\<close>, from \<^verbatim>\<open>data = message.toBinary(...)\<close>:
  a zeroed array of \<^verbatim>\<open>data.length + 5\<close> bytes, the frame type, the length, and
  \<^verbatim>\<open>body.set(data, 5)\<close>.
\<close>

definition send_body :: "bytes \<Rightarrow> bytes" where
  "send_body data =
     (let body0 = replicate (length data + 5) (0 :: byte);
          body1 = body0[0 := FrameType_DATA];
          body2 = send_length (length data) 4 body1
      in take 5 body2 @ data @ drop (5 + length data) body2)"

subsection \<open>The frame reader (createFrameReader)\<close>

text \<open>
  \<^verbatim>\<open>dataLength = (dataLength << 8) + buffer[i]\<close> for \<^verbatim>\<open>i\<close> from 1 to 4: \<^verbatim>\<open><<\<close> converts
  its left operand to a signed 32-bit integer and the result is one; the addition is the
  addition of numbers.
\<close>

definition shl8 :: "int \<Rightarrow> int" where
  "shl8 x = sint (push_bit 8 (word_of_int x :: 32 word))"

definition parseDataLength :: "bytes \<Rightarrow> int" where
  "parseDataLength buffer = foldl (\<lambda>dataLength i. shl8 dataLength + uint (buffer ! i)) 0 [1, 2, 3, 4]"

text \<open>
  The loop of \<^verbatim>\<open>readDataFrame\<close>. Each round either leaves the loop, fails at the end of the
  stream, or appends the next chunk: the recursion is on the chunks left. It returns the
  \<^verbatim>\<open>dataLength\<close> it left the loop with, and the buffer and stream of that moment.
\<close>

fun readDataFrame_loop :: "int option \<Rightarrow> bytes \<Rightarrow> bytes list \<Rightarrow> stream_end \<Rightarrow> (reason + int) \<times> reader" where
  "readDataFrame_loop dataLength buffer [] e =
     (let dataLength' = (if dataLength = None \<and> 5 \<le> length buffer
                         then Some (parseDataLength buffer) else dataLength)
      in case dataLength' of
           Some n \<Rightarrow> if n \<le> int (length buffer) then (Inr n, buffer, [], e)
                     else (Inl (stream_failure e), buffer, [], e)
         | None \<Rightarrow> (Inl (stream_failure e), buffer, [], e))"
| "readDataFrame_loop dataLength buffer (chunk # chunks) e =
     (let dataLength' = (if dataLength = None \<and> 5 \<le> length buffer
                         then Some (parseDataLength buffer) else dataLength)
      in case dataLength' of
           Some n \<Rightarrow> if n \<le> int (length buffer) then (Inr n, buffer, chunk # chunks, e)
                     else readDataFrame_loop dataLength' (buffer @ chunk) chunks e
         | None \<Rightarrow> readDataFrame_loop dataLength' (buffer @ chunk) chunks e)"

definition readDataFrame :: "reader \<Rightarrow> (reason + Frame) \<times> reader" where
  "readDataFrame rd =
     (case readDataFrame_loop None (fst rd) (fst (snd rd)) (snd (snd rd)) of
        (Inl r, rd') \<Rightarrow> (Inl r, rd')
      | (Inr dataLength, buffer, st) \<Rightarrow>
          (Inr (DataFrame (subarray buffer 5 (5 + dataLength))),
           subarray_from buffer (5 + dataLength), st))"

text \<open>The loop of \<^verbatim>\<open>readTrailerFrame\<close> appends every chunk until the stream is done.\<close>

fun readTrailerFrame_loop :: "bytes \<Rightarrow> bytes list \<Rightarrow> stream_end \<Rightarrow> (reason + unit) \<times> reader" where
  "readTrailerFrame_loop buffer [] e =
     (case e of Done \<Rightarrow> (Inr (), buffer, [], e) | Errored r \<Rightarrow> (Inl r, buffer, [], e))"
| "readTrailerFrame_loop buffer (chunk # chunks) e = readTrailerFrame_loop (buffer @ chunk) chunks e"

definition readTrailerFrame :: "reader \<Rightarrow> (reason + Frame) \<times> reader" where
  "readTrailerFrame rd =
     (case readTrailerFrame_loop (fst rd) (fst (snd rd)) (snd (snd rd)) of
        (Inl r, rd') \<Rightarrow> (Inl r, rd')
      | (Inr _, buffer, st) \<Rightarrow> (Inr (TrailerFrame (subarray_from buffer 5)), [], st))"

text \<open>
  \<^verbatim>\<open>readFrame\<close>: while the buffer is empty or starts with a byte that is no frame type,
  read on.
\<close>

fun readFrame_loop :: "bytes \<Rightarrow> bytes list \<Rightarrow> stream_end \<Rightarrow> (reason + Frame) \<times> reader" where
  "readFrame_loop buffer [] e =
     (if 0 < length buffer \<and> buffer ! 0 = FrameType_DATA then readDataFrame (buffer, [], e)
      else if 0 < length buffer \<and> buffer ! 0 = FrameType_TRAILER then readTrailerFrame (buffer, [], e)
      else (Inl (stream_failure e), buffer, [], e))"
| "readFrame_loop buffer (chunk # chunks) e =
     (if 0 < length buffer \<and> buffer ! 0 = FrameType_DATA then readDataFrame (buffer, chunk # chunks, e)
      else if 0 < length buffer \<and> buffer ! 0 = FrameType_TRAILER
        then readTrailerFrame (buffer, chunk # chunks, e)
      else readFrame_loop (buffer @ chunk) chunks e)"

definition readFrame :: "reader \<Rightarrow> (reason + Frame) \<times> reader" where
  "readFrame rd = readFrame_loop (fst rd) (fst (snd rd)) (snd (snd rd))"

text \<open>\<^verbatim>\<open>createFrameReader(stream)\<close> starts with an empty buffer.\<close>

definition createFrameReader :: "stream \<Rightarrow> reader" where
  "createFrameReader st = ([], st)"

subsection \<open>Strings\<close>

text \<open>
  The string operations of the platform that the code calls. \<^verbatim>\<open>trim\<close> removes white space
  and line terminators at both ends; among the code units 0..255 these are 9 to 13, 32 and
  160.
\<close>

definition isWhiteSpace :: "char \<Rightarrow> bool" where
  "isWhiteSpace c = (let n = (of_char c :: nat) in (9 \<le> n \<and> n \<le> 13) \<or> n = 32 \<or> n = 160)"

definition trim :: "string \<Rightarrow> string" where
  "trim s = rev (dropWhile isWhiteSpace (rev (dropWhile isWhiteSpace s)))"

definition endsWith :: "string \<Rightarrow> string \<Rightarrow> bool" where
  "endsWith s t = (length t \<le> length s \<and> drop (length s - length t) s = t)"

definition substring :: "string \<Rightarrow> nat \<Rightarrow> nat \<Rightarrow> string" where
  "substring s a b =
     (let a' = min a (length s); b' = min b (length s)
      in take (max a' b' - min a' b') (drop (min a' b') s))"

definition substring_from :: "string \<Rightarrow> nat \<Rightarrow> string" where
  "substring_from s a = drop a s"

definition indexOf :: "string \<Rightarrow> char \<Rightarrow> nat option" where
  "indexOf s c = (if c \<in> set s then Some (length (takeWhile (\<lambda>d. d \<noteq> c) s)) else None)"

text \<open>\<^verbatim>\<open>s.split("\r\n")\<close>; the first argument holds the current piece, reversed.\<close>

fun split_CRLF :: "string \<Rightarrow> string \<Rightarrow> string list" where
  "split_CRLF cur [] = [rev cur]"
| "split_CRLF cur [c] = [rev (c # cur)]"
| "split_CRLF cur (c # d # cs) =
     (if c = CHR 0x0D \<and> d = CHR 0x0A then rev cur # split_CRLF [] cs
      else split_CRLF (c # cur) (d # cs))"

definition fromCharCode :: "bytes \<Rightarrow> string" where
  "fromCharCode data = map (\<lambda>b. char_of (unat b)) data"

text \<open>
  The decimal digits of a number: \<^verbatim>\<open>String(n)\<close> for an integer \<open>0 \<le> n < 10^21\<close>.
\<close>

fun decimal :: "nat \<Rightarrow> string" where
  "decimal n = (if n < 10 then [char_of (48 + n)] else decimal (n div 10) @ [char_of (48 + n mod 10)])"

text \<open>
  \<^verbatim>\<open>parseInt(string)\<close> with no radix, after ECMA-262: leading white space is skipped, a
  sign is read, the prefix \<^verbatim>\<open>0x\<close> or \<^verbatim>\<open>0X\<close> selects radix 16 (radix 10 otherwise), and
  the longest run of digits of that radix is the number; with no digit the result is
  \<^verbatim>\<open>NaN\<close>, here \<open>None\<close>. The result is kept exact: a JavaScript number rounds an integer
  above \<open>2^53\<close>, which changes no comparison the code makes with it.
\<close>

definition digitValue :: "char \<Rightarrow> nat option" where
  "digitValue c =
     (let n = (of_char c :: nat)
      in if 48 \<le> n \<and> n \<le> 57 then Some (n - 48)
         else if 97 \<le> n \<and> n \<le> 122 then Some (n - 87)
         else if 65 \<le> n \<and> n \<le> 90 then Some (n - 55)
         else None)"

definition isRadixDigit :: "nat \<Rightarrow> char \<Rightarrow> bool" where
  "isRadixDigit R c = (case digitValue c of None \<Rightarrow> False | Some v \<Rightarrow> v < R)"

definition digitsValue :: "nat \<Rightarrow> string \<Rightarrow> nat" where
  "digitsValue R z = foldl (\<lambda>acc c. acc * R + (case digitValue c of None \<Rightarrow> 0 | Some v \<Rightarrow> v)) 0 z"

definition parseInt_radix :: "nat \<Rightarrow> int \<Rightarrow> string \<Rightarrow> int option" where
  "parseInt_radix R sign s =
     (let z = takeWhile (isRadixDigit R) s
      in if z = [] then None else Some (sign * int (digitsValue R z)))"

definition parseInt :: "string \<Rightarrow> int option" where
  "parseInt inputString =
     (let s = dropWhile isWhiteSpace inputString;
          sign = (if take 1 s = ''-'' then - 1 else 1);
          s' = (if take 1 s = ''+'' \<or> take 1 s = ''-'' then drop 1 s else s)
      in if take 2 s' = ''0x'' \<or> take 2 s' = ''0X'' then parseInt_radix 16 sign (drop 2 s')
         else parseInt_radix 10 sign s')"

text \<open>
  The reading of the spec, "parse as a base-10 integer", for comparison: the same with the
  radix fixed to 10 (\<^verbatim>\<open>parseInt(string, 10)\<close>).
\<close>

definition parseInt_base10 :: "string \<Rightarrow> int option" where
  "parseInt_base10 inputString =
     (let s = dropWhile isWhiteSpace inputString;
          sign = (if take 1 s = ''-'' then - 1 else 1);
          s' = (if take 1 s = ''+'' \<or> take 1 s = ''-'' then drop 1 s else s)
      in parseInt_radix 10 sign s')"

subsection \<open>Headers\<close>

text \<open>
  The platform's \<^verbatim>\<open>Headers\<close> class, after the Fetch standard: a header list, here with the
  names in lower case (names are compared without regard to case). \<^verbatim>\<open>append\<close> strips
  the HTTP white space around the value and throws a \<^verbatim>\<open>TypeError\<close> when the name is no
  token or the value holds a NUL, LF or CR; \<^verbatim>\<open>get\<close> joins the values of a name with a
  comma and a space; \<^verbatim>\<open>set\<close> replaces the first header of the name and removes the others;
  \<^verbatim>\<open>forEach\<close> visits the names in sorted order, each with its joined value. The text of
  the \<^verbatim>\<open>TypeError\<close> is the engine's; the separate listing of \<^verbatim>\<open>set-cookie\<close> values by
  newer engines is left out.
\<close>

type_synonym Headers = "(string \<times> string) list"

definition asciiLower :: "char \<Rightarrow> char" where
  "asciiLower c = (let n = (of_char c :: nat) in if 65 \<le> n \<and> n \<le> 90 then char_of (n + 32) else c)"

definition lowercase :: "string \<Rightarrow> string" where
  "lowercase s = map asciiLower s"

definition isTokenChar :: "char \<Rightarrow> bool" where
  "isTokenChar c =
     (let n = (of_char c :: nat)
      in (48 \<le> n \<and> n \<le> 57) \<or> (65 \<le> n \<and> n \<le> 90) \<or> (97 \<le> n \<and> n \<le> 122)
         \<or> n \<in> {0x21, 0x23, 0x24, 0x25, 0x26, 0x27, 0x2A, 0x2B, 0x2D, 0x2E, 0x5E, 0x5F, 0x60, 0x7C, 0x7E})"

definition isHeaderName :: "string \<Rightarrow> bool" where
  "isHeaderName name = (name \<noteq> [] \<and> list_all isTokenChar name)"

definition isHttpWhitespace :: "char \<Rightarrow> bool" where
  "isHttpWhitespace c = (let n = (of_char c :: nat) in n = 0x09 \<or> n = 0x0A \<or> n = 0x0D \<or> n = 0x20)"

definition normalizeValue :: "string \<Rightarrow> string" where
  "normalizeValue v = rev (dropWhile isHttpWhitespace (rev (dropWhile isHttpWhitespace v)))"

definition isHeaderValue :: "string \<Rightarrow> bool" where
  "isHeaderValue v = list_all (\<lambda>c. (of_char c :: nat) \<notin> {0x00, 0x0A, 0x0D}) v"

definition TypeError :: string where
  "TypeError = ''TypeError''"

definition Headers_append :: "Headers \<Rightarrow> string \<Rightarrow> string \<Rightarrow> string + Headers" where
  "Headers_append h name v =
     (if isHeaderName name \<and> isHeaderValue (normalizeValue v)
      then Inr (h @ [(lowercase name, normalizeValue v)]) else Inl TypeError)"

fun join_values :: "string list \<Rightarrow> string" where
  "join_values [] = []"
| "join_values [v] = v"
| "join_values (v # w # vs) = v @ '', '' @ join_values (w # vs)"

definition Headers_values :: "Headers \<Rightarrow> string \<Rightarrow> string list" where
  "Headers_values h name = map snd (filter (\<lambda>kv. fst kv = lowercase name) h)"

definition Headers_get :: "Headers \<Rightarrow> string \<Rightarrow> string option" where
  "Headers_get h name =
     (if Headers_values h name = [] then None else Some (join_values (Headers_values h name)))"

fun Headers_set_list :: "Headers \<Rightarrow> string \<Rightarrow> string \<Rightarrow> Headers" where
  "Headers_set_list [] k v = [(k, v)]"
| "Headers_set_list ((k', v') # h) k v =
     (if k' = k then (k, v) # filter (\<lambda>kv. fst kv \<noteq> k) h else (k', v') # Headers_set_list h k v)"

text \<open>
  \<^verbatim>\<open>set\<close> is only called with the names and values of a \<^verbatim>\<open>Headers\<close> object or with
  literals that are valid, so it has no failing branch here.
\<close>

definition Headers_set :: "Headers \<Rightarrow> string \<Rightarrow> string \<Rightarrow> Headers" where
  "Headers_set h name v = Headers_set_list h (lowercase name) (normalizeValue v)"

definition Headers_entries :: "Headers \<Rightarrow> (string \<times> string) list" where
  "Headers_entries h = map (\<lambda>k. (k, join_values (Headers_values h k))) (sort (remdups (map fst h)))"

text \<open>\<^verbatim>\<open>new Headers(init)\<close> appends the pairs of \<^verbatim>\<open>init\<close> in order; no \<^verbatim>\<open>init\<close> is no pair.\<close>

fun Headers_fill :: "Headers \<Rightarrow> (string \<times> string) list \<Rightarrow> string + Headers" where
  "Headers_fill h [] = Inr h"
| "Headers_fill h ((name, v) # init) =
     (case Headers_append h name v of Inl e \<Rightarrow> Inl e | Inr h' \<Rightarrow> Headers_fill h' init)"

definition new_Headers :: "(string \<times> string) list \<Rightarrow> string + Headers" where
  "new_Headers init = Headers_fill [] init"

subsection \<open>Building the request (createRequest, createRequestHeaders)\<close>

text \<open>
  The \<^verbatim>\<open>url\<close> that \<^verbatim>\<open>createRequest\<close> computes from \<^verbatim>\<open>transportOptions.baseUrl\<close>, the
  service's type name and the method's name.
\<close>

definition createRequest_url :: "string \<Rightarrow> string \<Rightarrow> string \<Rightarrow> string" where
  "createRequest_url transport_baseUrl serviceTypeName methodName =
     (let baseUrl = (if endsWith transport_baseUrl ''/''
                     then substring transport_baseUrl 0 (length transport_baseUrl - 1)
                     else transport_baseUrl)
      in baseUrl @ ''/'' @ serviceTypeName @ ''/'' @ methodName)"

text \<open>
  \<^verbatim>\<open>ClientCallOptions\<close>: the caller's headers as the pairs of a \<^verbatim>\<open>HeadersInit\<close> (none when
  the option is undefined) and the timeout, a number of milliseconds, when there is one.
\<close>

record ClientCallOptions =
  headers :: "(string \<times> string) list"
  timeout :: "nat option"

definition default_Headers :: Headers where
  "default_Headers =
     [(''content-type'', ''application/grpc-web+proto''),
      (''x-grpc-web'', ''1''),
      (''x-user-agent'', ''@bufbuild/connect-web'')]"

definition createRequestHeaders :: "ClientCallOptions \<Rightarrow> string + Headers" where
  "createRequestHeaders callOptions =
     (case new_Headers (headers callOptions) of
        Inl e \<Rightarrow> Inl e
      | Inr caller \<Rightarrow>
          (let header = fold (\<lambda>(key, v) h. Headers_set h key v) (Headers_entries caller) default_Headers
           in case timeout callOptions of
                None \<Rightarrow> Inr header
              | Some t \<Rightarrow> Inr (Headers_set header ''grpc-timeout'' (decimal t @ ''m''))))"

subsection \<open>Extracting errors\<close>

text \<open>
  The message \<^verbatim>\<open>Status\<close> of \<^verbatim>\<open>grpc/status/v1/status_pb.ts\<close>, and what the code takes from
  modules that are not among the sources: \<^verbatim>\<open>percentDecodeHeader\<close> and \<^verbatim>\<open>parseBinaryHeader\<close>
  (\<open>None\<close> when it throws) of \<^verbatim>\<open>http-headers.ts\<close>, \<^verbatim>\<open>codeFromHttpStatus\<close> of
  \<^verbatim>\<open>status-code.ts\<close>, and of the response message type \<^verbatim>\<open>fromBinary\<close> with the binary
  options applied (\<open>Inl\<close> the text of what it throws) and \<^verbatim>\<open>typeName\<close>.
\<close>

datatype Status = Status (code: int) (message: string) (details: "any list")

record 'm externals =
  percentDecodeHeader :: "string \<Rightarrow> string"
  parseBinaryHeader :: "string \<Rightarrow> Status option"
  codeFromHttpStatus :: "nat \<Rightarrow> int"
  fromBinary :: "bytes \<Rightarrow> string + 'm"
  typeName :: string

text \<open>The operator \<^verbatim>\<open>??\<close> on a value that is \<^verbatim>\<open>undefined\<close> or an error.\<close>

definition nullish :: "'a option \<Rightarrow> 'a option \<Rightarrow> 'a option" where
  "nullish a b = (case a of None \<Rightarrow> b | Some v \<Rightarrow> Some v)"

text \<open>
  The \<^verbatim>\<open>body\<close> of a response is \<^verbatim>\<open>null\<close> (\<open>None\<close>), or a stream of which \<^verbatim>\<open>getReader()\<close>
  throws (\<open>Inl\<close> the text of what it throws), or a stream that can be read.
\<close>

record Response =
  status :: nat
  response_headers :: Headers
  body :: "(string + stream) option"

definition grpc_message :: "Headers \<Rightarrow> string" where
  "grpc_message h = (case Headers_get h ''grpc-message'' of None \<Rightarrow> [] | Some m \<Rightarrow> m)"

definition extractHttpStatusError :: "'m externals \<Rightarrow> Response \<Rightarrow> ConnectError option" where
  "extractHttpStatusError x response =
     (let code = codeFromHttpStatus x (status response)
      in if code = StatusCode_Ok then None
         else Some (ConnectError (percentDecodeHeader x (grpc_message (response_headers response)))
                      (Some code) None))"

definition extractHeadersError :: "'m externals \<Rightarrow> Headers \<Rightarrow> ConnectError option" where
  "extractHeadersError x header =
     (case Headers_get header ''grpc-status'' of
        None \<Rightarrow> None
      | Some v \<Rightarrow>
          (let code = parseInt v
           in if code = Some StatusCode_Ok then None
              else if (case code of None \<Rightarrow> True | Some c \<Rightarrow> \<not> StatusCode_defined c)
                then Some (ConnectError (''invalid grpc-status: '' @ v) (Some StatusCode_DataLoss) None)
              else Some (ConnectError (percentDecodeHeader x (grpc_message header)) code None)))"

definition extractDetailsError :: "'m externals \<Rightarrow> Headers \<Rightarrow> ConnectError option" where
  "extractDetailsError x header =
     (case Headers_get header ''grpc-status-details-bin'' of
        None \<Rightarrow> None
      | Some grpcStatusDetailsBin \<Rightarrow>
          (case parseBinaryHeader x grpcStatusDetailsBin of
             None \<Rightarrow> Some (ConnectError ''invalid grpc-status-details-bin'' None None)
           | Some st \<Rightarrow>
               if code st = StatusCode_Ok then None
               else Some (ConnectError (message st) (Some (code st)) (Some (details st)))))"

subsection \<open>Parsing the trailer (parseTrailerFrame)\<close>

fun parseTrailer_lines :: "Headers \<Rightarrow> string list \<Rightarrow> string + Headers" where
  "parseTrailer_lines h [] = Inr h"
| "parseTrailer_lines h (line # lines) =
     (if line = [] then parseTrailer_lines h lines
      else case indexOf line CHR '':'' of
             None \<Rightarrow> parseTrailer_lines h lines
           | Some i \<Rightarrow>
               if 0 < i
               then (case Headers_append h (trim (substring line 0 i)) (trim (substring_from line (i + 1))) of
                       Inl e \<Rightarrow> Inl e
                     | Inr h' \<Rightarrow> parseTrailer_lines h' lines)
               else parseTrailer_lines h lines)"

definition parseTrailerFrame :: "bytes \<Rightarrow> string + Headers" where
  "parseTrailerFrame data = parseTrailer_lines [] (split_CRLF [] (fromCharCode data))"

subsection \<open>Receiving the response (createResponse)\<close>

text \<open>
  The callbacks of a \<^verbatim>\<open>ClientResponseHandler\<close>, as the list of the calls made to it. The
  handler is taken to have all four callbacks, and none of them throws. One invocation of
  \<^verbatim>\<open>receive\<close> is run to its end, with every promise it waits for settled, before the next
  one starts.
\<close>

datatype 'm callback =
    OnHeader Headers
  | OnMessage 'm
  | OnTrailer Headers
  | OnClose "ConnectError option"

datatype 'a promise = Resolved 'a | Rejected reason

text \<open>The variables \<^verbatim>\<open>createResponse\<close> closes over; \<open>readFrameVar\<close> is \<^verbatim>\<open>readFrame\<close>.\<close>

record ResponseState =
  isReading :: bool
  isRead :: bool
  readFrameVar :: "reader option"

definition createResponse :: ResponseState where
  "createResponse = \<lparr>isReading = False, isRead = False, readFrameVar = None\<rparr>"

definition close :: "reason \<Rightarrow> ResponseState \<Rightarrow> ResponseState \<times> 'm callback list" where
  "close r s =
     (s\<lparr>isRead := True, isReading := False\<rparr>,
      [OnClose (case r of IsConnectError e \<Rightarrow> Some e
                | Undefined \<Rightarrow> None
                | Other text \<Rightarrow> Some (ConnectError text None None))])"

text \<open>
  The part of \<^verbatim>\<open>receive\<close> from \<^verbatim>\<open>isReading = true\<close> on: one frame is read and handled.
\<close>

definition receive_frame :: "'m externals \<Rightarrow> ResponseState \<Rightarrow> reader \<Rightarrow> ResponseState \<times> 'm callback list" where
  "receive_frame x s rd =
     (case readFrame rd of
        (Inl r, rd') \<Rightarrow> close r (s\<lparr>isReading := True, readFrameVar := Some rd'\<rparr>)
      | (Inr frame, rd') \<Rightarrow>
          (let s' = s\<lparr>isReading := False, readFrameVar := Some rd'\<rparr>
           in case frame of
                DataFrame data \<Rightarrow>
                  (case fromBinary x data of
                     Inr m \<Rightarrow> (s', [OnMessage m])
                   | Inl e \<Rightarrow> close (Other (''failed to deserialize message '' @ typeName x @ '': '' @ e)) s')
              | TrailerFrame data \<Rightarrow>
                  (case parseTrailerFrame data of
                     Inl e \<Rightarrow> close (Other e) s'
                   | Inr trailer \<Rightarrow>
                       (case close (case nullish (extractDetailsError x trailer) (extractHeadersError x trailer) of
                                      None \<Rightarrow> Undefined | Some err \<Rightarrow> IsConnectError err) s' of
                          (s'', cbs) \<Rightarrow> (s'', OnTrailer trailer # cbs)))))"

definition receive :: "'m externals \<Rightarrow> Response promise \<Rightarrow> ResponseState \<Rightarrow> ResponseState \<times> 'm callback list" where
  "receive x response s =
     (if isRead s then close (Other ''response already read'') s
      else if isReading s then close (Other ''cannot read response concurrently'') s
      else case response of
             Rejected r \<Rightarrow> close r s
           | Resolved resp \<Rightarrow>
               (case readFrameVar s of
                  Some rd \<Rightarrow> receive_frame x s rd
                | None \<Rightarrow>
                    (case (case nullish (extractDetailsError x (response_headers resp))
                                   (nullish (extractHeadersError x (response_headers resp))
                                      (extractHttpStatusError x resp)) of
                             Some err \<Rightarrow> close (IsConnectError err) s
                           | None \<Rightarrow>
                               (case body resp of
                                  None \<Rightarrow> close (Other ''missing response body'') s
                                | Some (Inl e) \<Rightarrow>
                                    close (Other (''failed to get response body reader: '' @ e)) s
                                | Some (Inr st) \<Rightarrow>
                                    receive_frame x (s\<lparr>readFrameVar := Some (createFrameReader st)\<rparr>)
                                      (createFrameReader st))) of
                       (s', cbs) \<Rightarrow> (s', OnHeader (response_headers resp) # cbs))))"

text \<open>The caller invoking \<^verbatim>\<open>receive\<close> \<open>n\<close> times in a row, and all the callbacks made.\<close>

fun receive_times :: "nat \<Rightarrow> 'm externals \<Rightarrow> Response promise \<Rightarrow> ResponseState \<Rightarrow> ResponseState \<times> 'm callback list" where
  "receive_times 0 x response s = (s, [])"
| "receive_times (Suc n) x response s =
     (case receive x response s of
        (s', cbs) \<Rightarrow> (case receive_times n x response s' of (s'', cbs') \<Rightarrow> (s'', cbs @ cbs')))"

subsection \<open>Callback sequences\<close>

text \<open>
  The callbacks by name, and two patterns of callback sequences. The first is the regular
  expression of the spec, \<^verbatim>\<open>on-header on-message? on-trailer? on-close\<close>, as the four
  sequences it has. The second is \<^verbatim>\<open>on-header on-message* (on-trailer? on-close+)?\<close>.
\<close>

datatype kind = on_header | on_message | on_trailer | on_close

fun kind_of :: "'m callback \<Rightarrow> kind" where
  "kind_of (OnHeader h) = on_header"
| "kind_of (OnMessage m) = on_message"
| "kind_of (OnTrailer t) = on_trailer"
| "kind_of (OnClose e) = on_close"

definition spec_pattern :: "kind list \<Rightarrow> bool" where
  "spec_pattern ks =
     (ks = [on_header, on_close] \<or> ks = [on_header, on_message, on_close]
      \<or> ks = [on_header, on_trailer, on_close]
      \<or> ks = [on_header, on_message, on_trailer, on_close])"

fun only_close :: "kind list \<Rightarrow> bool" where
  "only_close [] = True"
| "only_close (k # ks) = (k = on_close \<and> only_close ks)"

fun after_header :: "kind list \<Rightarrow> bool" where
  "after_header [] = True"
| "after_header (on_message # ks) = after_header ks"
| "after_header (on_close # ks) = only_close ks"
| "after_header (on_trailer # on_close # ks) = only_close ks"
| "after_header ks = False"

fun call_pattern :: "kind list \<Rightarrow> bool" where
  "call_pattern (on_header # ks) = after_header ks"
| "call_pattern ks = False"

subsection \<open>An instance of what the code takes from outside\<close>

text \<open>
  For running the model: a percent decoding that leaves its argument as it is, a
  \<^verbatim>\<open>parseBinaryHeader\<close> that knows one value, the base64 text of the \<^verbatim>\<open>Status\<close> with code 7
  and message \<^verbatim>\<open>denied\<close>, and throws on every other, a \<^verbatim>\<open>codeFromHttpStatus\<close> that
  maps 200 to Ok and every other status to Unknown, and a message type whose messages are
  their bytes.
\<close>

definition example_externals :: "bytes externals" where
  "example_externals =
     \<lparr>percentDecodeHeader = (\<lambda>v. v),
      parseBinaryHeader = (\<lambda>v. if v = ''CAcSBmRlbmllZA=='' then Some (Status 7 ''denied'' []) else None),
      codeFromHttpStatus = (\<lambda>n. if n = 200 then 0 else 2),
      fromBinary = Inr,
      typeName = ''T''\<rparr>"

definition example_response :: "bytes list \<Rightarrow> Response promise" where
  "example_response chunks = Resolved \<lparr>status = 200, response_headers = [], body = Some (Inr (chunks, Done))\<rparr>"

section \<open>Properties\<close>

subsection \<open>The encoded DATA frame\<close>

lemma four_Suc: "(4::nat) = Suc (Suc (Suc (Suc 0)))"
  by simp

lemma send_length_4:
  "send_length n 4 b =
    b[Suc (Suc (Suc (Suc 0))) := of_nat (n mod 256),
      Suc (Suc (Suc 0)) := of_nat (ushr8 n mod 256),
      Suc (Suc 0) := of_nat (ushr8 (ushr8 n) mod 256),
      Suc 0 := of_nat (ushr8 (ushr8 (ushr8 n)) mod 256)]"
  by (simp add: four_Suc)

lemma replicate_5: "replicate (n + 5) x = [x, x, x, x, x] @ replicate n x"
proof -
  have "replicate (n + 5) x = replicate 5 x @ replicate n x"
    by (simp add: replicate_add [symmetric] add.commute)
  moreover have "replicate 5 x = [x, x, x, x, x]"
    by (simp add: numeral_eq_Suc)
  ultimately show ?thesis by simp
qed

lemma send_body_eq:
  "send_body data =
     [0, of_nat (ushr8 (ushr8 (ushr8 (length data))) mod 256),
         of_nat (ushr8 (ushr8 (length data)) mod 256),
         of_nat (ushr8 (length data) mod 256),
         of_nat (length data mod 256)] @ data"
  by (simp add: send_body_def send_length_4 FrameType_DATA_def Let_def replicate_5)

lemma unat_byte_mod: "unat (of_nat (n mod 256) :: byte) = n mod 256"
  by (simp add: unat_of_nat)

lemma ushr8_small: "n < 2 ^ 32 \<Longrightarrow> ushr8 n = n div 256"
  by (simp add: ushr8_def)

lemma div_256_small: "(n::nat) < 2 ^ 32 \<Longrightarrow> n div 256 < 2 ^ 32"
  by (rule le_less_trans [OF div_le_dividend])

lemma horner4:
  "(a::nat) * 2 ^ 24 + b * 2 ^ 16 + c * 2 ^ 8 + d = ((a * 256 + b) * 256 + c) * 256 + d"
  by (simp add: algebra_simps)

lemma be32_sum:
  assumes "n < 2 ^ 32"
  shows "(ushr8 (ushr8 (ushr8 n)) mod 256) * 2 ^ 24 + (ushr8 (ushr8 n) mod 256) * 2 ^ 16
          + (ushr8 n mod 256) * 2 ^ 8 + n mod 256 = n"
proof -
  have a: "ushr8 n = n div 256"
    using assms by (rule ushr8_small)
  have b: "ushr8 (n div 256) = n div 256 div 256"
    using assms by (intro ushr8_small div_256_small)
  have c: "ushr8 (n div 256 div 256) = n div 256 div 256 div 256"
    using assms by (intro ushr8_small div_256_small)
  have "n div 256 div 256 div 256 < 256"
    using assms by simp
  then have e: "n div 256 div 256 div 256 mod 256 = n div 256 div 256 div 256"
    by simp
  have "n = n div 256 * 256 + n mod 256"
    by simp
  also have "n div 256 = n div 256 div 256 * 256 + n div 256 mod 256"
    by simp
  also have "n div 256 div 256 = n div 256 div 256 div 256 * 256 + n div 256 div 256 mod 256"
    by simp
  finally have g: "((n div 256 div 256 div 256 * 256 + n div 256 div 256 mod 256) * 256
      + n div 256 mod 256) * 256 + n mod 256 = n"
    by (rule sym)
  show ?thesis
    unfolding a b c e horner4 by (rule g)
qed

text \<open>
  C3. For a payload whose length fits in 32 bits unsigned, the body built by \<^verbatim>\<open>send\<close> has
  five bytes more than the payload, starts with the byte 0x00, carries in bytes 1..4 the
  payload length as a big-endian unsigned 32-bit integer, and continues from byte 5 with
  the payload itself.
\<close>

theorem send_body_layout:
  assumes "length P < 2 ^ 32"
  shows "length (send_body P) = length P + 5
       \<and> send_body P ! 0 = 0x00
       \<and> unat (send_body P ! 1) * 2 ^ 24 + unat (send_body P ! 2) * 2 ^ 16
           + unat (send_body P ! 3) * 2 ^ 8 + unat (send_body P ! 4) = length P
       \<and> drop 5 (send_body P) = P"
proof (intro conjI)
  show "length (send_body P) = length P + 5"
    by (simp add: send_body_eq)
  show "send_body P ! 0 = 0x00"
    by (simp add: send_body_eq)
  show "drop 5 (send_body P) = P"
    by (simp add: send_body_eq)
  have "send_body P ! 1 = of_nat (ushr8 (ushr8 (ushr8 (length P))) mod 256)"
    and "send_body P ! 2 = of_nat (ushr8 (ushr8 (length P)) mod 256)"
    and "send_body P ! 3 = of_nat (ushr8 (length P) mod 256)"
    and "send_body P ! 4 = of_nat (length P mod 256)"
    by (simp_all add: send_body_eq numeral_3_eq_3 four_Suc)
  then show "unat (send_body P ! 1) * 2 ^ 24 + unat (send_body P ! 2) * 2 ^ 16
           + unat (send_body P ! 3) * 2 ^ 8 + unat (send_body P ! 4) = length P"
    by (simp only: unat_byte_mod be32_sum [OF assms])
qed

theorem send_body_layout_witness:
  "length [1, 2, 3 :: byte] < 2 ^ 32
   \<and> send_body [1, 2, 3] = [0x00, 0, 0, 0, 3, 1, 2, 3]
   \<and> length (send_body [1, 2, 3]) = 8
   \<and> unat (send_body [1, 2, 3] ! 1) * 2 ^ 24 + unat (send_body [1, 2, 3] ! 2) * 2 ^ 16
           + unat (send_body [1, 2, 3] ! 3) * 2 ^ 8 + unat (send_body [1, 2, 3] ! 4) = 3
   \<and> drop 5 (send_body [1, 2, 3]) = [1, 2, 3]"
proof -
  have h: "length [1, 2, 3 :: byte] < 2 ^ 32"
    by simp
  have e: "send_body [1, 2, 3] = [0x00, 0, 0, 0, 3, 1, 2, 3]"
    by (simp add: send_body_eq ushr8_def)
  show ?thesis
    using h e send_body_layout [OF h] by simp
qed

subsection \<open>The frame reader on short chunks\<close>

text \<open>
  C1. The frame reader in DATA mode: the stream delivers the DATA frame of the payload
  \<open>[1, 2, 3]\<close> in two chunks, the first one ending after the first payload byte. The
  reader leaves its loop as soon as the buffer holds \<open>L = 3\<close> bytes (not \<open>5 + L\<close>): it
  returns the payload \<open>[1]\<close> and an empty buffer and never reads the second chunk. When
  the stream ends after the first chunk, the same truncated frame is returned and no
  DataLoss is raised.
\<close>

theorem readDataFrame_leaves_early:
  "readFrame (createFrameReader ([[0, 0, 0, 0, 3, 1], [2, 3]], Done))
     = (Inr (DataFrame [1]), [], [[2, 3]], Done)
   \<and> readFrame (createFrameReader ([[0, 0, 0, 0, 3, 1]], Done))
     = (Inr (DataFrame [1]), [], [], Done)"
  by (simp add: readFrame_def createFrameReader_def FrameType_DATA_def readDataFrame_def
      parseDataLength_def shl8_def subarray_def subarray_from_def relativeIndex_def)

text \<open>
  C2. The bytes of \<^verbatim>\<open>send\<close>'s DATA frame for the payload \<open>[1, 2, 3]\<close>, followed by a
  trailer frame (type byte 0x80, a 4-byte length field, the payload \<open>[7]\<close>), split into
  two chunks after the sixth byte: the first call of the frame reader returns a DATA frame
  with the payload \<open>[1]\<close>, and the second call fails with DataLoss instead of returning
  the trailer frame.
\<close>

theorem roundtrip_split_chunks_fails:
  "concat [[0, 0, 0, 0, 3, 1], [2, 3, 0x80, 0, 0, 0, 1, 7]]
     = send_body [1, 2, 3] @ [FrameType_TRAILER, 0, 0, 0, 1] @ [7]
   \<and> readFrame (createFrameReader ([[0, 0, 0, 0, 3, 1], [2, 3, 0x80, 0, 0, 0, 1, 7]], Done))
     = (Inr (DataFrame [1]), [], [[2, 3, 0x80, 0, 0, 0, 1, 7]], Done)
   \<and> readFrame ([], [[2, 3, 0x80, 0, 0, 0, 1, 7]], Done)
     = (Inl premature_end, [2, 3, 0x80, 0, 0, 0, 1, 7], [], Done)"
  by (simp add: send_body_eq ushr8_def readFrame_def createFrameReader_def FrameType_DATA_def
      FrameType_TRAILER_def readDataFrame_def parseDataLength_def shl8_def subarray_def
      subarray_from_def relativeIndex_def stream_failure_def)


subsection \<open>The frame reader on a body in one chunk\<close>

lemma shl8_small:
  assumes "0 \<le> x" and "x < 2 ^ 23"
  shows "shl8 x = x * 256"
proof -
  have "push_bit 8 (word_of_int x :: 32 word) = word_of_int (x * 256)"
    by (simp add: push_bit_eq_mult)
  moreover have "sint (word_of_int (x * 256) :: 32 word) = signed_take_bit (LENGTH(32) - 1) (x * 256)"
    by (rule sint_sbintrunc')
  moreover have "signed_take_bit (LENGTH(32) - 1) (x * 256) = x * 256"
    using assms by (simp add: signed_take_bit_int_eq_self)
  ultimately show ?thesis
    by (simp only: shl8_def)
qed

lemma parseDataLength_unfold:
  "parseDataLength buffer
     = shl8 (shl8 (shl8 (shl8 0 + uint (buffer ! 1)) + uint (buffer ! 2)) + uint (buffer ! 3))
         + uint (buffer ! 4)"
  by (simp add: parseDataLength_def)

lemma parseDataLength_be32:
  assumes "a < 128" and "b < 256" and "c < 256" and "d < 256"
  shows "parseDataLength (t # of_nat a # of_nat b # of_nat c # of_nat d # rest)
    = int (a * 2 ^ 24 + b * 2 ^ 16 + c * 2 ^ 8 + d)"
proof -
  have u: "uint (of_nat k :: byte) = int k" if "k < 256" for k
    using that by (simp add: uint_nat unat_of_nat)
  from assms(1) have a: "a < 256"
    by simp
  have s0: "shl8 0 = 0"
    by (simp add: shl8_def)
  have s1: "shl8 (int a) = int a * 256"
    using assms by (intro shl8_small) simp_all
  have s2: "shl8 (int a * 256 + int b) = (int a * 256 + int b) * 256"
    using assms by (intro shl8_small) simp_all
  have s3: "shl8 ((int a * 256 + int b) * 256 + int c) = ((int a * 256 + int b) * 256 + int c) * 256"
    using assms by (intro shl8_small) simp_all
  have n: "(t # of_nat a # of_nat b # of_nat c # of_nat d # rest) ! 1 = of_nat a"
    "(t # of_nat a # of_nat b # of_nat c # of_nat d # rest) ! 2 = of_nat b"
    "(t # of_nat a # of_nat b # of_nat c # of_nat d # rest) ! 3 = of_nat c"
    "(t # of_nat a # of_nat b # of_nat c # of_nat d # rest) ! 4 = of_nat d"
    by (simp_all add: numeral_2_eq_2 numeral_3_eq_3 eval_nat_numeral)
  have "parseDataLength (t # of_nat a # of_nat b # of_nat c # of_nat d # rest)
      = ((int a * 256 + int b) * 256 + int c) * 256 + int d"
    unfolding parseDataLength_unfold n by (simp only: u a assms s0 s1 s2 s3 add_0)
  then show ?thesis
    by (simp add: algebra_simps)
qed

lemma next_chain:
  assumes "n < 2 ^ 31"
  shows "ushr8 (ushr8 (ushr8 n)) mod 256 < 128"
proof -
  have a: "ushr8 n = n div 256"
    using assms by (intro ushr8_small) simp
  have b: "ushr8 (n div 256) = n div 256 div 256"
    using assms by (intro ushr8_small div_256_small) simp
  have c: "ushr8 (n div 256 div 256) = n div 256 div 256 div 256"
    using assms by (intro ushr8_small div_256_small) simp
  have "n div 256 div 256 div 256 < 128"
    using assms by simp
  then show ?thesis
    unfolding a b c by simp
qed

text \<open>
  The frame reader on a response whose body arrives in one chunk: the DATA frame of
  \<^verbatim>\<open>send\<close> for a payload of less than \<open>2^31\<close> bytes, then a trailer frame.
\<close>

lemma roundtrip_single_chunk:
  assumes "length P < 2 ^ 31" and "length field = 4"
  shows "readFrame (createFrameReader ([send_body P @ FrameType_TRAILER # field @ T], Done))
           = (Inr (DataFrame P), FrameType_TRAILER # field @ T, [], Done)
       \<and> readFrame (FrameType_TRAILER # field @ T, [], Done) = (Inr (TrailerFrame T), [], [], Done)"
proof
  let ?tr = "FrameType_TRAILER # field @ T"
  let ?b1 = "ushr8 (ushr8 (ushr8 (length P))) mod 256"
  let ?b2 = "ushr8 (ushr8 (length P)) mod 256"
  let ?b3 = "ushr8 (length P) mod 256"
  let ?b4 = "length P mod 256"
  from assms(1) have small: "length P < 2 ^ 32"
    by simp
  have len: "parseDataLength (send_body P @ ?tr) = int (length P)"
    using parseDataLength_be32 [of ?b1 ?b2 ?b3 ?b4 0 "P @ ?tr"] next_chain [OF assms(1)]
      be32_sum [OF small]
    by (simp add: send_body_eq)
  obtain hdr where hdr: "send_body P = hdr @ P" "length hdr = 5" "hdr ! 0 = FrameType_DATA"
    by (simp add: send_body_eq FrameType_DATA_def)
  have long: "5 \<le> length (send_body P @ ?tr)"
    by (simp add: hdr)
  have loop: "readDataFrame_loop None (send_body P @ ?tr) [] Done
      = (Inr (int (length P)), send_body P @ ?tr, [], Done)"
    using long by (simp add: len) (simp add: hdr)
  have data: "subarray (send_body P @ ?tr) 5 (5 + int (length P)) = P"
    by (simp add: subarray_def relativeIndex_def hdr Let_def)
  have rest: "subarray_from (send_body P @ ?tr) (5 + int (length P)) = ?tr"
    by (simp add: subarray_from_def relativeIndex_def hdr)
  have first: "(send_body P @ ?tr) ! 0 = FrameType_DATA"
    by (simp add: hdr nth_append)
  show "readFrame (createFrameReader ([send_body P @ ?tr], Done)) = (Inr (DataFrame P), ?tr, [], Done)"
    using long
    by (simp add: readFrame_def createFrameReader_def first readDataFrame_def loop data rest
        del: readDataFrame_loop.simps)
  show "readFrame (?tr, [], Done) = (Inr (TrailerFrame T), [], [], Done)"
    using assms(2)
    by (simp add: readFrame_def FrameType_DATA_def FrameType_TRAILER_def readTrailerFrame_def
        subarray_from_def relativeIndex_def)
qed

subsection \<open>The request URL\<close>

lemma endsWith_slash: "endsWith s ''/'' \<longleftrightarrow> s \<noteq> [] \<and> last s = CHR ''/''"
proof (cases s rule: rev_cases)
  case Nil
  then show ?thesis by (simp add: endsWith_def)
next
  case (snoc ys y)
  then show ?thesis by (auto simp add: endsWith_def)
qed

text \<open>
  C7. The request URL is the base URL without its trailing slash, then \<^verbatim>\<open>/\<close>, the service's
  type name, \<^verbatim>\<open>/\<close> and the method's name: a base URL \<open>b\<close> followed by a slash gives the
  same URL as \<open>b\<close> does when \<open>b\<close> has no trailing slash.
\<close>

theorem createRequest_url_shape:
  "createRequest_url (b @ ''/'') serviceTypeName methodName
     = b @ ''/'' @ serviceTypeName @ ''/'' @ methodName
   \<and> (b = [] \<or> last b \<noteq> CHR ''/'' \<longrightarrow>
        createRequest_url b serviceTypeName methodName
          = b @ ''/'' @ serviceTypeName @ ''/'' @ methodName)"
  by (auto simp add: createRequest_url_def endsWith_slash substring_def Let_def)

theorem createRequest_url_shape_witness:
  "last ''https://x.test/api'' \<noteq> CHR ''/''
   \<and> createRequest_url ''https://x.test/api'' ''p.S'' ''M'' = ''https://x.test/api/p.S/M''
   \<and> createRequest_url ''https://x.test/api/'' ''p.S'' ''M'' = ''https://x.test/api/p.S/M''"
  using createRequest_url_shape [of "''https://x.test/api''" "''p.S''" "''M''"]
  by simp



subsection \<open>The request headers\<close>

lemma asciiLower_idem: "asciiLower (asciiLower c) = asciiLower c"
proof (cases "65 \<le> (of_char c :: nat) \<and> (of_char c :: nat) \<le> 90")
  case True
  then have "(of_char c :: nat) + 32 < 256" by simp
  then have "(of_char (char_of ((of_char c :: nat) + 32)) :: nat) = of_char c + 32"
    by simp
  with True show ?thesis by (simp add: asciiLower_def Let_def)
next
  case False
  then show ?thesis by (auto simp add: asciiLower_def Let_def)
qed

lemma lowercase_idem: "lowercase (lowercase s) = lowercase s"
  by (simp add: lowercase_def asciiLower_idem)

lemma Headers_values_set_list:
  "Headers_values (Headers_set_list h k v) name =
     (if lowercase name = k then [v] else Headers_values h name)"
proof (induction h)
  case Nil
  show ?case by (simp add: Headers_values_def)
next
  case (Cons kv h)
  obtain k' v' where kv: "kv = (k', v')" by (cases kv)
  have flt: "filter (\<lambda>p. fst p \<noteq> k \<and> fst p = k) h = []"
    by (induction h) auto
  have flt2: "k \<noteq> lowercase name \<Longrightarrow>
      filter (\<lambda>p. fst p \<noteq> k \<and> fst p = lowercase name) h
        = filter (\<lambda>p. fst p = lowercase name) h"
    by (induction h) auto
  show ?case
    using Cons.IH by (auto simp add: kv Headers_values_def flt flt2)
qed

lemma Headers_get_set:
  "Headers_get (Headers_set h k v) name =
     (if lowercase name = lowercase k then Some (normalizeValue v) else Headers_get h name)"
  by (simp add: Headers_get_def Headers_set_def Headers_values_set_list)


lemma Headers_get_fold_other:
  "lowercase name \<notin> (\<lambda>kv. lowercase (fst kv)) ` set es \<Longrightarrow>
   Headers_get (fold (\<lambda>(key, v) h. Headers_set h key v) es h) name = Headers_get h name"
  by (induction es arbitrary: h) (auto simp add: Headers_get_set)

lemma Headers_get_fold_entry:
  assumes "distinct (map fst es)" and "\<forall>kv\<in>set es. lowercase (fst kv) = fst kv"
    and "(lowercase name, v) \<in> set es"
  shows "Headers_get (fold (\<lambda>(key, v) h. Headers_set h key v) es h) name = Some (normalizeValue v)"
proof -
  from assms(3) obtain es1 es2 where es: "es = es1 @ (lowercase name, v) # es2"
    by (auto simp add: in_set_conv_decomp)
  with assms(1) have "lowercase name \<notin> fst ` set es2"
    by auto
  moreover from assms(2) es have "\<forall>kv\<in>set es2. lowercase (fst kv) = fst kv"
    by simp
  ultimately have "lowercase name \<notin> (\<lambda>kv. lowercase (fst kv)) ` set es2"
    by force
  then show ?thesis
    by (simp add: es Headers_get_fold_other Headers_get_set lowercase_idem)
qed

lemma Headers_append_lower:
  "Headers_append h name v = Inr h' \<Longrightarrow> \<forall>kv\<in>set h. lowercase (fst kv) = fst kv \<Longrightarrow>
   \<forall>kv\<in>set h'. lowercase (fst kv) = fst kv"
  by (auto simp add: Headers_append_def lowercase_idem split: if_splits)

lemma Headers_fill_lower:
  "Headers_fill h init = Inr h' \<Longrightarrow> \<forall>kv\<in>set h. lowercase (fst kv) = fst kv \<Longrightarrow>
   \<forall>kv\<in>set h'. lowercase (fst kv) = fst kv"
proof (induction init arbitrary: h)
  case Nil
  then show ?case by simp
next
  case (Cons p init)
  obtain name v where p: "p = (name, v)" by (cases p)
  from Cons.prems(1) obtain h1 where a: "Headers_append h name v = Inr h1"
    and f: "Headers_fill h1 init = Inr h'"
    by (auto simp add: p split: sum.splits)
  from Headers_append_lower [OF a Cons.prems(2)] Cons.IH [OF f] show ?case
    by blast
qed

lemma Headers_entries_distinct: "distinct (map fst (Headers_entries h))"
  by (simp add: Headers_entries_def comp_def)

lemma Headers_entries_keys: "fst ` set (Headers_entries h) = fst ` set h"
  by (force simp add: Headers_entries_def image_iff)

lemma Headers_entries_get:
  assumes "Headers_get h name = Some v"
  shows "(lowercase name, v) \<in> set (Headers_entries h)"
proof -
  from assms have ne: "Headers_values h name \<noteq> []" and v: "v = join_values (Headers_values h name)"
    by (auto simp add: Headers_get_def split: if_splits)
  from ne have "lowercase name \<in> fst ` set h"
    by (force simp add: Headers_values_def filter_empty_conv)
  moreover have "Headers_values h (lowercase name) = Headers_values h name"
    by (simp add: Headers_values_def lowercase_idem)
  ultimately show ?thesis
    by (auto simp add: Headers_entries_def v image_iff)
qed

lemma Headers_entries_none:
  assumes "Headers_get h name = None"
  shows "lowercase name \<notin> fst ` set (Headers_entries h)"
proof -
  from assms have "Headers_values h name = []"
    by (auto simp add: Headers_get_def split: if_splits)
  then have "lowercase name \<notin> fst ` set h"
    by (auto simp add: Headers_values_def filter_empty_conv)
  then show ?thesis by (simp add: Headers_entries_keys)
qed

declare decimal.simps [simp del]

lemma decimal_digits: "decimal n \<noteq> [] \<and> (\<forall>c\<in>set (decimal n). \<not> isHttpWhitespace c)"
proof (induction n rule: decimal.induct)
  case (1 n)
  have d: "\<not> isHttpWhitespace (char_of (48 + k))" if "k < 10" for k :: nat
  proof -
    from that have "(of_char (char_of (48 + k)) :: nat) = 48 + k" by simp
    then show ?thesis by (simp add: isHttpWhitespace_def Let_def)
  qed
  show ?case
  proof (cases "n < 10")
    case True
    then show ?thesis by (subst decimal.simps, subst (2) decimal.simps) (simp add: d)
  next
    case False
    with "1.IH" show ?thesis
      by (subst decimal.simps, subst (2) decimal.simps) (simp add: d)
  qed
qed

lemma normalizeValue_fixed:
  assumes "v \<noteq> []" and "\<not> isHttpWhitespace (hd v)" and "\<not> isHttpWhitespace (last v)"
  shows "normalizeValue v = v"
proof -
  from assms(1,2) have a: "dropWhile isHttpWhitespace v = v"
    by (cases v) simp_all
  from assms(1,3) have "dropWhile isHttpWhitespace (rev v) = rev v"
    by (cases "rev v") (simp_all add: last_rev [symmetric] del: last_rev)
  with a show ?thesis by (simp add: normalizeValue_def)
qed

lemma normalizeValue_timeout: "normalizeValue (decimal t @ ''m'') = decimal t @ ''m''"
proof (rule normalizeValue_fixed)
  show "decimal t @ ''m'' \<noteq> []" by simp
  show "\<not> isHttpWhitespace (hd (decimal t @ ''m''))"
    using decimal_digits [of t] by (cases "decimal t") simp_all
  show "\<not> isHttpWhitespace (last (decimal t @ ''m''))"
    by (simp add: isHttpWhitespace_def)
qed


text \<open>
  C10. When the call options carry a timeout, the request headers have \<^verbatim>\<open>grpc-timeout\<close>
  equal to the timeout followed by \<^verbatim>\<open>m\<close>, whatever \<^verbatim>\<open>grpc-timeout\<close> the caller's headers
  held; every other header the caller supplies, the three unconditional ones included,
  carries the caller's value (as \<^verbatim>\<open>set\<close> stores it), and a header the caller does not
  supply keeps its unconditional value.
\<close>

theorem createRequestHeaders_precedence:
  assumes "createRequestHeaders callOptions = Inr header"
  shows "(timeout callOptions = Some t \<longrightarrow>
            Headers_get header ''grpc-timeout'' = Some (decimal t @ ''m''))
       \<and> (new_Headers (headers callOptions) = Inr caller \<and> Headers_get caller name = Some v
            \<and> (timeout callOptions = None \<or> lowercase name \<noteq> ''grpc-timeout'') \<longrightarrow>
            Headers_get header name = Some (normalizeValue v))
       \<and> (new_Headers (headers callOptions) = Inr caller \<and> Headers_get caller name = None
            \<and> (timeout callOptions = None \<or> lowercase name \<noteq> ''grpc-timeout'') \<longrightarrow>
            Headers_get header name = Headers_get default_Headers name)"
proof (intro conjI impI)
  assume "timeout callOptions = Some t"
  with assms show "Headers_get header ''grpc-timeout'' = Some (decimal t @ ''m'')"
    by (auto simp add: createRequestHeaders_def Let_def Headers_get_set normalizeValue_timeout
        split: sum.splits)
next
  assume a: "new_Headers (headers callOptions) = Inr caller \<and> Headers_get caller name = Some v
    \<and> (timeout callOptions = None \<or> lowercase name \<noteq> ''grpc-timeout'')"
  have low: "\<forall>kv\<in>set (Headers_entries caller). lowercase (fst kv) = fst kv"
  proof -
    from a have "\<forall>kv\<in>set caller. lowercase (fst kv) = fst kv"
      using Headers_fill_lower [of "[]" "headers callOptions" caller] by (simp add: new_Headers_def)
    moreover have "fst ` set (Headers_entries caller) = fst ` set caller"
      by (rule Headers_entries_keys)
    ultimately show ?thesis by force
  qed
  from a have "(lowercase name, v) \<in> set (Headers_entries caller)"
    by (simp add: Headers_entries_get)
  then have folded: "Headers_get (fold (\<lambda>(key, v) h. Headers_set h key v) (Headers_entries caller)
      default_Headers) name = Some (normalizeValue v)"
    by (rule Headers_get_fold_entry [OF Headers_entries_distinct low])
  have lit: "lowercase ''grpc-timeout'' = ''grpc-timeout''"
    by code_simp
  from assms a folded show "Headers_get header name = Some (normalizeValue v)"
    by (auto simp add: createRequestHeaders_def Let_def Headers_get_set lit split: option.splits)
next
  assume a: "new_Headers (headers callOptions) = Inr caller \<and> Headers_get caller name = None
    \<and> (timeout callOptions = None \<or> lowercase name \<noteq> ''grpc-timeout'')"
  have low: "\<forall>kv\<in>set (Headers_entries caller). lowercase (fst kv) = fst kv"
  proof -
    from a have "\<forall>kv\<in>set caller. lowercase (fst kv) = fst kv"
      using Headers_fill_lower [of "[]" "headers callOptions" caller] by (simp add: new_Headers_def)
    moreover have "fst ` set (Headers_entries caller) = fst ` set caller"
      by (rule Headers_entries_keys)
    ultimately show ?thesis by force
  qed
  from a have "lowercase name \<notin> fst ` set (Headers_entries caller)"
    by (simp add: Headers_entries_none)
  with low have "lowercase name \<notin> (\<lambda>kv. lowercase (fst kv)) ` set (Headers_entries caller)"
    by force
  then have folded: "Headers_get (fold (\<lambda>(key, v) h. Headers_set h key v) (Headers_entries caller)
      default_Headers) name = Headers_get default_Headers name"
    by (rule Headers_get_fold_other)
  have lit: "lowercase ''grpc-timeout'' = ''grpc-timeout''"
    by code_simp
  from assms a folded show "Headers_get header name = Headers_get default_Headers name"
    by (auto simp add: createRequestHeaders_def Let_def Headers_get_set lit split: option.splits)
qed

theorem createRequestHeaders_precedence_witness:
  "createRequestHeaders \<lparr>headers = [(''Grpc-Timeout'', ''5S''), (''Content-Type'', ''text/plain'')],
      timeout = Some 1500\<rparr>
     = Inr [(''content-type'', ''text/plain''), (''x-grpc-web'', ''1''),
            (''x-user-agent'', ''@bufbuild/connect-web''), (''grpc-timeout'', ''1500m'')]
   \<and> Headers_get [(''content-type'', ''text/plain''), (''x-grpc-web'', ''1''),
            (''x-user-agent'', ''@bufbuild/connect-web''), (''grpc-timeout'', ''1500m'')] ''grpc-timeout''
     = Some ''1500m''
   \<and> Headers_get [(''content-type'', ''text/plain''), (''x-grpc-web'', ''1''),
            (''x-user-agent'', ''@bufbuild/connect-web''), (''grpc-timeout'', ''1500m'')] ''Content-Type''
     = Some ''text/plain''
   \<and> Headers_get [(''content-type'', ''text/plain''), (''x-grpc-web'', ''1''),
            (''x-user-agent'', ''@bufbuild/connect-web''), (''grpc-timeout'', ''1500m'')] ''X-Grpc-Web''
     = Some ''1''"
proof -
  let ?opts = "\<lparr>headers = [(''Grpc-Timeout'', ''5S''), (''Content-Type'', ''text/plain'')],
      timeout = Some (1500 :: nat)\<rparr>"
  let ?h = "[(''content-type'', ''text/plain''), (''x-grpc-web'', ''1''),
            (''x-user-agent'', ''@bufbuild/connect-web''), (''grpc-timeout'', ''1500m'')]"
  let ?caller = "[(''grpc-timeout'', ''5S''), (''content-type'', ''text/plain'')]"
  have run: "createRequestHeaders ?opts = Inr ?h"
    by code_simp
  have caller: "new_Headers (headers ?opts) = Inr ?caller"
    by code_simp
  have c1: "Headers_get ?caller ''Content-Type'' = Some ''text/plain''"
    by code_simp
  have c2: "Headers_get ?caller ''X-Grpc-Web'' = None"
    by code_simp
  have l1: "lowercase ''Content-Type'' \<noteq> ''grpc-timeout''"
    by code_simp
  have l2: "lowercase ''X-Grpc-Web'' \<noteq> ''grpc-timeout''"
    by code_simp
  have d: "decimal 1500 @ ''m'' = ''1500m''"
    by code_simp
  have n: "normalizeValue ''text/plain'' = ''text/plain''"
    by code_simp
  have g: "Headers_get default_Headers ''X-Grpc-Web'' = Some ''1''"
    by code_simp
  have t: "timeout ?opts = Some 1500"
    by simp
  from createRequestHeaders_precedence [OF run, of 1500 ?caller "''Content-Type''" "''text/plain''"]
    createRequestHeaders_precedence [OF run, of 1500 ?caller "''X-Grpc-Web''" "''1''"]
    run caller c1 c2 l1 l2 d n g t
  show ?thesis
    by simp
qed




subsection \<open>One invocation of receive\<close>

lemma close_eq:
  "close r s = (s\<lparr>isRead := True, isReading := False\<rparr>, [OnClose e]) \<longleftrightarrow>
     e = (case r of IsConnectError c \<Rightarrow> Some c | Undefined \<Rightarrow> None
          | Other text \<Rightarrow> Some (ConnectError text None None))"
  by (auto simp add: close_def)

lemma isRead_close: "isRead (fst (close r s))"
  by (simp add: close_def)

lemma snd_close: "\<exists>e. snd (close r s) = [OnClose e]"
  by (simp add: close_def)

text \<open>
  What one frame leads to: a message and nothing else, with the response left open, or a
  closing of the response, after the trailer when the frame was one.
\<close>

lemma receive_frame_cases:
  "(\<exists>m. receive_frame x s rd
          = (s\<lparr>isReading := False, readFrameVar := Some (snd (readFrame rd))\<rparr>, [OnMessage m]))
   \<or> (\<exists>s' e. receive_frame x s rd = (s', [OnClose e]) \<and> isRead s')
   \<or> (\<exists>s' t e. receive_frame x s rd = (s', [OnTrailer t, OnClose e]) \<and> isRead s')"
proof -
  obtain res rd' where Pair: "readFrame rd = (res, rd')"
    by (cases "readFrame rd")
  show ?thesis
  proof (cases res)
    case (Inl r)
    with Pair show ?thesis
      by (simp add: receive_frame_def close_def)
  next
    case (Inr frame)
    show ?thesis
    proof (cases frame)
      case (DataFrame data)
      with Pair Inr show ?thesis
        by (cases "fromBinary x data") (simp_all add: receive_frame_def close_def)
    next
      case (TrailerFrame data)
      with Pair Inr show ?thesis
        by (cases "parseTrailerFrame data") (simp_all add: receive_frame_def close_def)
    qed
  qed
qed

lemma receive_closed:
  "isRead s \<Longrightarrow> receive x r s
     = (s\<lparr>isRead := True, isReading := False\<rparr>,
        [OnClose (Some (ConnectError ''response already read'' None None))])"
  by (simp add: receive_def close_def)

lemma receive_times_closed:
  "isRead s \<Longrightarrow> snd (receive_times n x r s)
     = replicate n (OnClose (Some (ConnectError ''response already read'' None None)))"
proof (induction n arbitrary: s)
  case 0
  show ?case by simp
next
  case (Suc n)
  have "isRead (s\<lparr>isRead := True, isReading := False\<rparr>)"
    by simp
  from Suc.IH [OF this] Suc.prems show ?case
    by (simp add: receive_closed case_prod_beta)
qed

lemma receive_close_isRead:
  assumes "OnClose e \<in> set (snd (receive x r s))"
  shows "isRead (fst (receive x r s))"
proof -
  have frame: "isRead (fst (receive_frame x s' rd))"
    if "OnClose e \<in> set (snd (receive_frame x s' rd))" for s' rd
    using receive_frame_cases [of x s' rd] that by auto
  show ?thesis
  proof (cases "isRead s \<or> isReading s")
    case True
    then show ?thesis by (auto simp add: receive_def isRead_close)
  next
    case False
    show ?thesis
    proof (cases r)
      case (Rejected reason)
      with False show ?thesis by (simp add: receive_def isRead_close)
    next
      case (Resolved resp)
      show ?thesis
      proof (cases "readFrameVar s")
        case (Some rd)
        with False Resolved assms show ?thesis
          by (simp add: receive_def frame)
      next
        case None
        with False Resolved assms show ?thesis
          by (auto simp add: receive_def close_def case_prod_beta dest: frame
              split: option.splits sum.splits)
      qed
    qed
  qed
qed

text \<open>
  C6, as the code has it. Once a \<^verbatim>\<open>receive()\<close> has delivered on-close, every further
  \<^verbatim>\<open>receive()\<close> on the same response delivers one callback and no other: an on-close with
  the error "response already read".
\<close>

theorem receive_after_close:
  assumes "OnClose e \<in> set (snd (receive x r s))"
  shows "snd (receive_times n x r (fst (receive x r s)))
     = replicate n (OnClose (Some (ConnectError ''response already read'' None None)))"
  using assms by (intro receive_times_closed receive_close_isRead)


theorem receive_after_close_witness:
  "OnClose None \<in> set (snd (receive example_externals (example_response [[0x80, 0, 0, 0, 0]]) createResponse))
   \<and> snd (receive_times 2 example_externals (example_response [[0x80, 0, 0, 0, 0]])
        (fst (receive example_externals (example_response [[0x80, 0, 0, 0, 0]]) createResponse)))
     = [OnClose (Some (ConnectError ''response already read'' None None)),
        OnClose (Some (ConnectError ''response already read'' None None))]"
proof -
  have h: "OnClose None
      \<in> set (snd (receive example_externals (example_response [[0x80, 0, 0, 0, 0]]) createResponse))"
    by code_simp
  from h receive_after_close [OF h, of 2] show ?thesis
    by (simp add: numeral_2_eq_2)
qed

text \<open>
  C6, as the spec states it, fails: on a response with one DATA frame and a trailer frame
  the second \<^verbatim>\<open>receive()\<close> delivers on-trailer and an on-close without error, and on a
  response with two DATA frames it delivers on-message.
\<close>

theorem second_receive_reads_next_frame:
  "snd (receive example_externals (example_response [[0, 0, 0, 0, 1, 9, 0x80, 0, 0, 0, 0]])
        (fst (receive example_externals (example_response [[0, 0, 0, 0, 1, 9, 0x80, 0, 0, 0, 0]])
                createResponse)))
     = [OnTrailer [], OnClose None]
   \<and> snd (receive example_externals (example_response [[0, 0, 0, 0, 1, 9], [0, 0, 0, 0, 1, 8]])
        (fst (receive example_externals (example_response [[0, 0, 0, 0, 1, 9], [0, 0, 0, 0, 1, 8]])
                createResponse)))
     = [OnMessage [8]]"
  by code_simp

subsection \<open>One frame for each invocation\<close>

lemma receive_frame_message:
  assumes "OnMessage m \<in> set (snd (receive_frame x s rd))"
  shows "receive_frame x s rd
     = (s\<lparr>isReading := False, readFrameVar := Some (snd (readFrame rd))\<rparr>, [OnMessage m])"
  using receive_frame_cases [of x s rd] assms by auto

text \<open>
  C9. A \<^verbatim>\<open>receive()\<close> that reads a DATA frame whose payload deserializes calls on-message
  with the message, after on-header when it is the first invocation, and makes no other
  call; it keeps the frame reader and leaves the response neither read nor reading. In
  general a \<^verbatim>\<open>receive()\<close> that calls on-message calls neither on-trailer nor on-close:
  what follows the DATA frame is left to a further \<^verbatim>\<open>receive()\<close>.
\<close>

theorem receive_message_leaves_open:
  "(\<not> isRead s \<and> \<not> isReading s \<and> readFrameVar s = Some rd
      \<and> readFrame rd = (Inr (DataFrame data), rd') \<and> fromBinary x data = Inr m \<longrightarrow>
      receive x (Resolved resp) s
        = (s\<lparr>isReading := False, readFrameVar := Some rd'\<rparr>, [OnMessage m]))
   \<and> (\<not> isRead s \<and> \<not> isReading s \<and> readFrameVar s = None
      \<and> nullish (extractDetailsError x (response_headers resp))
            (nullish (extractHeadersError x (response_headers resp))
               (extractHttpStatusError x resp)) = None
      \<and> body resp = Some (Inr st)
      \<and> readFrame (createFrameReader st) = (Inr (DataFrame data), rd')
      \<and> fromBinary x data = Inr m \<longrightarrow>
      receive x (Resolved resp) s
        = (s\<lparr>isReading := False, readFrameVar := Some rd'\<rparr>,
           [OnHeader (response_headers resp), OnMessage m]))
   \<and> (OnMessage m \<in> set (snd (receive x r s)) \<longrightarrow>
        (snd (receive x r s) = [OnMessage m]
          \<or> (\<exists>h. snd (receive x r s) = [OnHeader h, OnMessage m]))
        \<and> \<not> isRead (fst (receive x r s)) \<and> \<not> isReading (fst (receive x r s)))"
proof -
  have known: "\<not> isRead s \<and> \<not> isReading s \<and> readFrameVar s = Some rd
      \<and> readFrame rd = (Inr (DataFrame data), rd') \<and> fromBinary x data = Inr m \<longrightarrow>
      receive x (Resolved resp) s
        = (s\<lparr>isReading := False, readFrameVar := Some rd'\<rparr>, [OnMessage m])"
    by (simp add: receive_def receive_frame_def)
  have fresh: "\<not> isRead s \<and> \<not> isReading s \<and> readFrameVar s = None
      \<and> nullish (extractDetailsError x (response_headers resp))
            (nullish (extractHeadersError x (response_headers resp))
               (extractHttpStatusError x resp)) = None
      \<and> body resp = Some (Inr st)
      \<and> readFrame (createFrameReader st) = (Inr (DataFrame data), rd')
      \<and> fromBinary x data = Inr m \<longrightarrow>
      receive x (Resolved resp) s
        = (s\<lparr>isReading := False, readFrameVar := Some rd'\<rparr>,
           [OnHeader (response_headers resp), OnMessage m])"
    by (simp add: receive_def receive_frame_def)
  have only: "OnMessage m \<in> set (snd (receive x r s)) \<longrightarrow>
        (snd (receive x r s) = [OnMessage m]
          \<or> (\<exists>h. snd (receive x r s) = [OnHeader h, OnMessage m]))
        \<and> \<not> isRead (fst (receive x r s)) \<and> \<not> isReading (fst (receive x r s))"
  proof (rule impI)
    assume msg: "OnMessage m \<in> set (snd (receive x r s))"
    show "(snd (receive x r s) = [OnMessage m]
            \<or> (\<exists>h. snd (receive x r s) = [OnHeader h, OnMessage m]))
         \<and> \<not> isRead (fst (receive x r s)) \<and> \<not> isReading (fst (receive x r s))"
    proof (cases "isRead s \<or> isReading s")
      case True
      with msg show ?thesis
        by (auto simp add: receive_def close_def split: if_splits)
    next
      case False
      show ?thesis
      proof (cases r)
        case (Rejected reason)
        with False msg show ?thesis
          by (simp add: receive_def close_def)
      next
        case (Resolved resp)
        show ?thesis
        proof (cases "readFrameVar s")
          case (Some rd)
          with False Resolved have eq: "receive x r s = receive_frame x s rd"
            by (simp add: receive_def)
          from msg receive_frame_message [of m x s rd] False show ?thesis
            by (simp add: eq)
        next
          case None
          with False Resolved msg show ?thesis
            by (auto simp add: receive_def close_def case_prod_beta
                dest!: receive_frame_message split: option.splits sum.splits)
        qed
      qed
    qed
  qed
  show ?thesis
    by (rule conjI [OF known conjI [OF fresh only]])
qed

theorem receive_message_leaves_open_witness:
  "receive example_externals (example_response [[0, 0, 0, 0, 1, 9, 0x80, 0, 0, 0, 0]]) createResponse
     = (\<lparr>isReading = False, isRead = False, readFrameVar = Some ([0x80, 0, 0, 0, 0], [], Done)\<rparr>,
        [OnHeader [], OnMessage [9]])
   \<and> receive example_externals (example_response [[0, 0, 0, 0, 1, 9, 0x80, 0, 0, 0, 0]])
        \<lparr>isReading = False, isRead = False, readFrameVar = Some ([], [[0, 0, 0, 0, 1, 8]], Done)\<rparr>
     = (\<lparr>isReading = False, isRead = False, readFrameVar = Some ([], [], Done)\<rparr>, [OnMessage [8]])
   \<and> receive example_externals (example_response [[0, 0, 0, 0, 1, 9, 0x80, 0, 0, 0, 0]])
        \<lparr>isReading = False, isRead = False, readFrameVar = Some ([0x80, 0, 0, 0, 0], [], Done)\<rparr>
     = (\<lparr>isReading = False, isRead = True, readFrameVar = Some ([], [], Done)\<rparr>,
        [OnTrailer [], OnClose None])"
proof -
  let ?x = example_externals
  let ?st = "([[0, 0, 0, 0, 1, 9, 0x80, 0, 0, 0, 0]], Done) :: stream"
  let ?resp = "\<lparr>status = 200, response_headers = [], body = Some (Inr ?st)\<rparr>"
  let ?s2 = "\<lparr>isReading = False, isRead = False, readFrameVar = Some ([], [[0, 0, 0, 0, 1, 8 :: byte]], Done)\<rparr>"
  have p1: "\<not> isRead createResponse \<and> \<not> isReading createResponse \<and> readFrameVar createResponse = None
      \<and> nullish (extractDetailsError ?x (response_headers ?resp))
            (nullish (extractHeadersError ?x (response_headers ?resp))
               (extractHttpStatusError ?x ?resp)) = None
      \<and> body ?resp = Some (Inr ?st)
      \<and> readFrame (createFrameReader ?st) = (Inr (DataFrame [9]), [0x80, 0, 0, 0, 0], [], Done)
      \<and> fromBinary ?x [9] = Inr [9]"
    by code_simp
  have p2: "\<not> isRead ?s2 \<and> \<not> isReading ?s2 \<and> readFrameVar ?s2 = Some ([], [[0, 0, 0, 0, 1, 8]], Done)
      \<and> readFrame ([], [[0, 0, 0, 0, 1, 8]], Done) = (Inr (DataFrame [8]), [], [], Done)
      \<and> fromBinary ?x [8] = Inr [8]"
    by code_simp
  have first: "receive ?x (Resolved ?resp) createResponse
     = (\<lparr>isReading = False, isRead = False, readFrameVar = Some ([0x80, 0, 0, 0, 0], [], Done)\<rparr>,
        [OnHeader [], OnMessage [9]])"
    using receive_message_leaves_open [where x = ?x and s = createResponse and resp = ?resp
        and st = ?st and data = "[9]" and m = "[9]" and rd' = "([0x80, 0, 0, 0, 0], [], Done)"] p1
    by (simp add: createResponse_def)
  have second: "receive ?x (Resolved ?resp) ?s2
     = (\<lparr>isReading = False, isRead = False, readFrameVar = Some ([], [], Done)\<rparr>, [OnMessage [8]])"
    using receive_message_leaves_open [where x = ?x and s = ?s2 and resp = ?resp
        and rd = "([], [[0, 0, 0, 0, 1, 8]], Done)" and data = "[8]" and m = "[8]"
        and rd' = "([], [], Done)"] p2
    by simp
  have third: "receive ?x (Resolved ?resp)
        \<lparr>isReading = False, isRead = False, readFrameVar = Some ([0x80, 0, 0, 0, 0], [], Done)\<rparr>
     = (\<lparr>isReading = False, isRead = True, readFrameVar = Some ([], [], Done)\<rparr>,
        [OnTrailer [], OnClose None])"
    by code_simp
  from first second third show ?thesis
    by (simp add: example_response_def)
qed

subsection \<open>The callbacks of a call\<close>

lemma only_close_replicate: "only_close (replicate n on_close)"
  by (induction n) simp_all

lemma only_close_closed:
  "isRead s \<Longrightarrow> only_close (map kind_of (snd (receive_times n x r s)))"
  by (simp add: receive_times_closed only_close_replicate)

lemma after_header_frames:
  "\<not> isRead s \<Longrightarrow>
   after_header (map kind_of (snd (receive_frame x s rd))
     @ map kind_of (snd (receive_times n x (Resolved resp) (fst (receive_frame x s rd)))))"
proof (induction n arbitrary: s rd)
  case 0
  from receive_frame_cases [of x s rd] show ?case
    by auto
next
  case (Suc n)
  from receive_frame_cases [of x s rd] consider
    (msg) m where "receive_frame x s rd
        = (s\<lparr>isReading := False, readFrameVar := Some (snd (readFrame rd))\<rparr>, [OnMessage m])"
    | (closed) s' e where "receive_frame x s rd = (s', [OnClose e])" "isRead s'"
    | (trailer) s' t e where "receive_frame x s rd = (s', [OnTrailer t, OnClose e])" "isRead s'"
    by blast
  then show ?case
  proof cases
    case msg
    let ?s' = "s\<lparr>isReading := False, readFrameVar := Some (snd (readFrame rd))\<rparr>"
    from Suc.prems have op: "\<not> isRead ?s'"
      by simp
    then have "receive x (Resolved resp) ?s' = receive_frame x ?s' (snd (readFrame rd))"
      by (simp add: receive_def)
    with Suc.IH [OF op, of "snd (readFrame rd)"] show ?thesis
      by (simp add: msg case_prod_beta)
  next
    case closed
    with only_close_closed [of s' "Suc n" x "Resolved resp"] show ?thesis
      by simp
  next
    case trailer
    with only_close_closed [of s' "Suc n" x "Resolved resp"] show ?thesis
      by simp
  qed
qed

text \<open>
  C8, as the code has it. When the headers carry no error and the response has a body that
  can be read, the callbacks of any number of invocations of \<^verbatim>\<open>receive()\<close>, one or more,
  match \<^verbatim>\<open>on-header on-message* (on-trailer? on-close+)?\<close>: on-header comes first and
  once, every DATA frame gives one on-message, at most one trailer frame follows them, and
  from the first on-close on there is nothing but on-close.
\<close>

theorem receive_times_call_pattern:
  assumes "nullish (extractDetailsError x (response_headers resp))
             (nullish (extractHeadersError x (response_headers resp))
                (extractHttpStatusError x resp)) = None"
    and "body resp = Some (Inr st)"
  shows "call_pattern (map kind_of (snd (receive_times (Suc n) x (Resolved resp) createResponse)))"
proof -
  let ?s = "createResponse\<lparr>readFrameVar := Some (createFrameReader st)\<rparr>"
  let ?rf = "receive_frame x ?s (createFrameReader st)"
  have first: "receive x (Resolved resp) createResponse
      = (fst ?rf, OnHeader (response_headers resp) # snd ?rf)"
    using assms by (simp add: receive_def createResponse_def case_prod_beta)
  have "\<not> isRead ?s"
    by (simp add: createResponse_def)
  from after_header_frames [OF this, of x "createFrameReader st" n resp] show ?thesis
    by (simp add: first case_prod_beta)
qed

theorem receive_times_call_pattern_witness:
  "nullish (extractDetailsError example_externals [])
      (nullish (extractHeadersError example_externals [])
         (extractHttpStatusError example_externals
            \<lparr>status = 200, response_headers = [],
             body = Some (Inr ([[0, 0, 0, 0, 1, 9], [0, 0, 0, 0, 0], [0x80, 0, 0, 0, 0]], Done))\<rparr>)) = None
   \<and> map kind_of (snd (receive_times 3 example_externals
        (example_response [[0, 0, 0, 0, 1, 9], [0, 0, 0, 0, 0], [0x80, 0, 0, 0, 0]]) createResponse))
      = [on_header, on_message, on_message, on_trailer, on_close]
   \<and> call_pattern (map kind_of (snd (receive_times 3 example_externals
        (example_response [[0, 0, 0, 0, 1, 9], [0, 0, 0, 0, 0], [0x80, 0, 0, 0, 0]])
        createResponse)))"
proof -
  let ?resp = "\<lparr>status = 200, response_headers = [],
             body = Some (Inr ([[0, 0, 0, 0, 1, 9], [0, 0, 0, 0, 0], [0x80, 0, 0, 0, 0 :: byte]], Done))\<rparr>"
  have h1: "nullish (extractDetailsError example_externals (response_headers ?resp))
      (nullish (extractHeadersError example_externals (response_headers ?resp))
         (extractHttpStatusError example_externals ?resp)) = None"
    by code_simp
  have h2: "body ?resp = Some (Inr ([[0, 0, 0, 0, 1, 9], [0, 0, 0, 0, 0], [0x80, 0, 0, 0, 0]], Done))"
    by simp
  have run: "map kind_of (snd (receive_times 3 example_externals
        (example_response [[0, 0, 0, 0, 1, 9], [0, 0, 0, 0, 0], [0x80, 0, 0, 0, 0]]) createResponse))
      = [on_header, on_message, on_message, on_trailer, on_close]"
    by code_simp
  have three: "(3::nat) = Suc 2"
    by simp
  from receive_times_call_pattern [OF h1 h2, of 2] h1 run show ?thesis
    unfolding example_response_def three by simp
qed

text \<open>
  C8, as the spec states it, fails: on a response with two DATA frames and a trailer
  frame, the callbacks of one, two, three or four invocations of \<^verbatim>\<open>receive()\<close> all fall
  outside \<^verbatim>\<open>on-header on-message? on-trailer? on-close\<close>. Three invocations deliver
  on-message twice; one invocation delivers no on-close.
\<close>

theorem spec_pattern_violated:
  "map kind_of (snd (receive_times 3 example_externals
        (example_response [[0, 0, 0, 0, 1, 9], [0, 0, 0, 0, 0], [0x80, 0, 0, 0, 0]]) createResponse))
      = [on_header, on_message, on_message, on_trailer, on_close]
   \<and> \<not> spec_pattern (map kind_of (snd (receive_times 1 example_externals
        (example_response [[0, 0, 0, 0, 1, 9], [0, 0, 0, 0, 0], [0x80, 0, 0, 0, 0]]) createResponse)))
   \<and> \<not> spec_pattern (map kind_of (snd (receive_times 2 example_externals
        (example_response [[0, 0, 0, 0, 1, 9], [0, 0, 0, 0, 0], [0x80, 0, 0, 0, 0]]) createResponse)))
   \<and> \<not> spec_pattern (map kind_of (snd (receive_times 3 example_externals
        (example_response [[0, 0, 0, 0, 1, 9], [0, 0, 0, 0, 0], [0x80, 0, 0, 0, 0]]) createResponse)))
   \<and> \<not> spec_pattern (map kind_of (snd (receive_times 4 example_externals
        (example_response [[0, 0, 0, 0, 1, 9], [0, 0, 0, 0, 0], [0x80, 0, 0, 0, 0]]) createResponse)))"
  by code_simp



subsection \<open>The textual status\<close>

lemma decimal_chars:
  "decimal n \<noteq> [] \<and> (\<forall>c\<in>set (decimal n). 48 \<le> (of_char c :: nat) \<and> (of_char c :: nat) \<le> 57)"
proof (induction n rule: decimal.induct)
  case (1 n)
  have d: "(of_char (char_of (48 + k)) :: nat) = 48 + k" if "k < 10" for k :: nat
    using that by simp
  show ?case
  proof (cases "n < 10")
    case True
    then show ?thesis
      by (subst decimal.simps, subst (2) decimal.simps) (simp add: d)
  next
    case False
    with "1.IH" show ?thesis
      by (subst decimal.simps, subst (2) decimal.simps) (simp add: d)
  qed
qed

lemma digitsValue_snoc:
  "digitsValue R (z @ [c]) = digitsValue R z * R + (case digitValue c of None \<Rightarrow> 0 | Some v \<Rightarrow> v)"
  by (simp add: digitsValue_def)

lemma digitValue_char_of: "k < 10 \<Longrightarrow> digitValue (char_of (48 + k)) = Some k"
proof -
  assume "k < 10"
  then have "(of_char (char_of (48 + k)) :: nat) = 48 + k"
    by simp
  with \<open>k < 10\<close> show ?thesis
    by (simp add: digitValue_def Let_def)
qed

lemma digitsValue_decimal: "digitsValue 10 (decimal n) = n"
proof (induction n rule: decimal.induct)
  case (1 n)
  show ?case
  proof (cases "n < 10")
    case True
    then show ?thesis
      by (subst decimal.simps) (simp add: digitsValue_def digitValue_char_of)
  next
    case False
    with "1.IH" show ?thesis
      by (subst decimal.simps) (simp add: digitsValue_snoc digitValue_char_of)
  qed
qed

lemma parseInt_decimal: "parseInt (decimal n) = Some (int n)"
proof -
  let ?s = "decimal n"
  from decimal_chars [of n] have ne: "?s \<noteq> []"
    and dig: "\<And>c. c \<in> set ?s \<Longrightarrow> 48 \<le> (of_char c :: nat) \<and> (of_char c :: nat) \<le> 57"
    by auto
  have nows: "\<not> isWhiteSpace (hd ?s)"
    using dig [of "hd ?s"] ne by (auto simp add: isWhiteSpace_def Let_def)
  with ne have drop: "dropWhile isWhiteSpace ?s = ?s"
    by (cases ?s) simp_all
  have notin: "c \<notin> set ?s" if "(of_char c :: nat) < 48 \<or> 57 < (of_char c :: nat)" for c
    using dig [of c] that by auto
  have sign: "take 1 ?s \<noteq> ''-''" "take 1 ?s \<noteq> ''+''"
  proof -
    have "CHR ''-'' \<notin> set (take 1 ?s)" "CHR ''+'' \<notin> set (take 1 ?s)"
      using notin [of "CHR ''-''"] notin [of "CHR ''+''"] by (auto dest: in_set_takeD)
    then show "take 1 ?s \<noteq> ''-''" "take 1 ?s \<noteq> ''+''"
      by auto
  qed
  have hex: "take 2 ?s \<noteq> ''0x''" "take 2 ?s \<noteq> ''0X''"
  proof -
    have "CHR ''x'' \<notin> set (take 2 ?s)" "CHR ''X'' \<notin> set (take 2 ?s)"
      using notin [of "CHR ''x''"] notin [of "CHR ''X''"] by (auto dest: in_set_takeD)
    then show "take 2 ?s \<noteq> ''0x''" "take 2 ?s \<noteq> ''0X''"
      by auto
  qed
  have "isRadixDigit 10 c" if "c \<in> set ?s" for c
    using dig [OF that] by (auto simp add: isRadixDigit_def digitValue_def Let_def)
  then have tw: "takeWhile (isRadixDigit 10) ?s = ?s"
    by (simp add: takeWhile_eq_all_conv)
  from sign have sign': "take (Suc 0) ?s \<noteq> ''-''" "take (Suc 0) ?s \<noteq> ''+''"
    by simp_all
  show ?thesis
    by (simp add: parseInt_def Let_def drop sign' hex parseInt_radix_def tw ne digitsValue_decimal)
qed

text \<open>
  C4, as the code has it. The value of \<^verbatim>\<open>grpc-status\<close> is read by \<^verbatim>\<open>parseInt\<close> with no
  radix. Without the header there is no error, and none when the integer read is 0. When
  no integer is read or it is outside 0..16, the error has the code DataLoss and the message
  \<^verbatim>\<open>invalid grpc-status: \<close> followed by the value. Otherwise the error has the integer as
  its code and the percent-decoded \<^verbatim>\<open>grpc-message\<close> as its message, the percent-decoded
  empty string without that header. A plain decimal numeral is read as its base-10 value.
\<close>

theorem extractHeadersError_cases:
  "(Headers_get h ''grpc-status'' = None \<longrightarrow> extractHeadersError x h = None)
   \<and> (Headers_get h ''grpc-status'' = Some v \<and> parseInt v = Some 0 \<longrightarrow>
        extractHeadersError x h = None)
   \<and> (Headers_get h ''grpc-status'' = Some v
        \<and> (parseInt v = None \<or> (\<exists>c. parseInt v = Some c \<and> (c < 0 \<or> 16 < c))) \<longrightarrow>
        extractHeadersError x h
          = Some (ConnectError (''invalid grpc-status: '' @ v) (Some StatusCode_DataLoss) None))
   \<and> (Headers_get h ''grpc-status'' = Some v \<and> parseInt v = Some c \<and> 1 \<le> c \<and> c \<le> 16 \<longrightarrow>
        extractHeadersError x h
          = Some (ConnectError
                    (percentDecodeHeader x (case Headers_get h ''grpc-message'' of None \<Rightarrow> [] | Some m \<Rightarrow> m))
                    (Some c) None))
   \<and> parseInt (decimal n) = Some (int n)"
  by (auto simp add: extractHeadersError_def StatusCode_Ok_def StatusCode_defined_def
      grpc_message_def parseInt_decimal Let_def)

theorem extractHeadersError_cases_witness:
  "extractHeadersError example_externals [] = None
   \<and> extractHeadersError example_externals [(''grpc-status'', ''0'')] = None
   \<and> extractHeadersError example_externals [(''grpc-status'', ''999'')]
       = Some (ConnectError ''invalid grpc-status: 999'' (Some 15) None)
   \<and> extractHeadersError example_externals [(''grpc-status'', ''ok'')]
       = Some (ConnectError ''invalid grpc-status: ok'' (Some 15) None)
   \<and> extractHeadersError example_externals [(''grpc-status'', ''5''), (''grpc-message'', ''not%20found'')]
       = Some (ConnectError ''not%20found'' (Some 5) None)
   \<and> extractHeadersError example_externals [(''grpc-status'', ''5'')]
       = Some (ConnectError [] (Some 5) None)
   \<and> parseInt ''16'' = Some 16"
proof -
  let ?x = example_externals
  have g1: "Headers_get [] ''grpc-status'' = None"
    by code_simp
  have g2: "Headers_get [(''grpc-status'', ''0'')] ''grpc-status'' = Some ''0'' \<and> parseInt ''0'' = Some 0"
    by code_simp
  have g3: "Headers_get [(''grpc-status'', ''999'')] ''grpc-status'' = Some ''999''
      \<and> parseInt ''999'' = Some 999"
    by code_simp
  have g4: "Headers_get [(''grpc-status'', ''ok'')] ''grpc-status'' = Some ''ok'' \<and> parseInt ''ok'' = None"
    by code_simp
  have g5: "Headers_get [(''grpc-status'', ''5''), (''grpc-message'', ''not%20found'')] ''grpc-status''
      = Some ''5'' \<and> parseInt ''5'' = Some 5
      \<and> Headers_get [(''grpc-status'', ''5''), (''grpc-message'', ''not%20found'')] ''grpc-message''
      = Some ''not%20found''"
    by code_simp
  have g6: "Headers_get [(''grpc-status'', ''5'')] ''grpc-status'' = Some ''5''
      \<and> Headers_get [(''grpc-status'', ''5'')] ''grpc-message'' = None"
    by code_simp
  have d: "decimal 16 = ''16''"
    by code_simp
  have pd: "percentDecodeHeader ?x = (\<lambda>v. v)"
    by (simp add: example_externals_def)
  from extractHeadersError_cases [of "[]" ?x "[]" 0 0]
    extractHeadersError_cases [of "[(''grpc-status'', ''0'')]" ?x "''0''" 0 0]
    extractHeadersError_cases [of "[(''grpc-status'', ''999'')]" ?x "''999''" 0 0]
    extractHeadersError_cases [of "[(''grpc-status'', ''ok'')]" ?x "''ok''" 0 0]
    extractHeadersError_cases [of "[(''grpc-status'', ''5''), (''grpc-message'', ''not%20found'')]" ?x "''5''" 5 0]
    extractHeadersError_cases [of "[(''grpc-status'', ''5'')]" ?x "''5''" 5 16]
    g1 g2 g3 g4 g5 g6 d pd
  show ?thesis
    by (simp add: StatusCode_DataLoss_def)
qed

text \<open>
  C4, as the spec states it, fails: the value \<^verbatim>\<open>0x5\<close> read as a base-10 integer is 0, the
  code Ok, for which the spec has no error; \<^verbatim>\<open>parseInt\<close> with no radix reads it as the
  hexadecimal 5, and the error has the code 5.
\<close>

theorem extractHeadersError_reads_hexadecimal:
  "parseInt_base10 ''0x5'' = Some 0
   \<and> extractHeadersError example_externals [(''grpc-status'', ''0x5'')]
       = Some (ConnectError [] (Some 5) None)"
  by code_simp

subsection \<open>The order of the error sources\<close>

lemma receive_first:
  assumes "\<not> isRead s" and "\<not> isReading s" and "readFrameVar s = None"
    and "nullish (extractDetailsError x (response_headers resp))
           (nullish (extractHeadersError x (response_headers resp))
              (extractHttpStatusError x resp)) = Some e"
  shows "snd (receive x (Resolved resp) s) = [OnHeader (response_headers resp), OnClose (Some e)]"
  using assms by (simp add: receive_def close_def)

lemma receive_trailer:
  assumes "\<not> isRead s" and "\<not> isReading s" and "readFrameVar s = Some rd"
    and "readFrame rd = (Inr (TrailerFrame data), rd')" and "parseTrailerFrame data = Inr t"
  shows "snd (receive x (Resolved resp) s)
     = [OnTrailer t, OnClose (nullish (extractDetailsError x t) (extractHeadersError x t))]"
proof (cases "nullish (extractDetailsError x t) (extractHeadersError x t)")
  case None
  with assms show ?thesis
    by (simp add: receive_def receive_frame_def close_def)
next
  case (Some e)
  with assms show ?thesis
    by (simp add: receive_def receive_frame_def close_def)
qed

lemma receive_first_trailer:
  assumes "\<not> isRead s" and "\<not> isReading s" and "readFrameVar s = None"
    and "nullish (extractDetailsError x (response_headers resp))
           (nullish (extractHeadersError x (response_headers resp))
              (extractHttpStatusError x resp)) = None"
    and "body resp = Some (Inr st)"
    and "readFrame (createFrameReader st) = (Inr (TrailerFrame data), rd')"
    and "parseTrailerFrame data = Inr t"
  shows "snd (receive x (Resolved resp) s)
     = [OnHeader (response_headers resp), OnTrailer t,
        OnClose (nullish (extractDetailsError x t) (extractHeadersError x t))]"
proof (cases "nullish (extractDetailsError x t) (extractHeadersError x t)")
  case None
  with assms show ?thesis
    by (simp add: receive_def receive_frame_def close_def)
next
  case (Some e)
  with assms show ?thesis
    by (simp add: receive_def receive_frame_def close_def)
qed

text \<open>
  C5. When the response headers arrive, the error passed to on-close is that of the binary
  details if they give one, else that of the textual status if it gives one, else that of
  the HTTP status if it gives one. When the trailer arrives, in a later \<^verbatim>\<open>receive()\<close> or in
  the first one, right after the headers, the error passed to on-close is that of the
  binary details of the trailer if they give one, else that of its textual status, if any.
  A \<^verbatim>\<open>grpc-status-details-bin\<close> header that parses to a \<^verbatim>\<open>Status\<close> with a code other than
  Ok gives the error with that code, message and details, whatever \<^verbatim>\<open>grpc-status\<close> holds.
\<close>

theorem error_precedence:
  "(\<not> isRead s \<and> \<not> isReading s \<and> readFrameVar s = None
      \<and> extractDetailsError x (response_headers resp) = Some e \<longrightarrow>
      snd (receive x (Resolved resp) s) = [OnHeader (response_headers resp), OnClose (Some e)])
   \<and> (\<not> isRead s \<and> \<not> isReading s \<and> readFrameVar s = None
      \<and> extractDetailsError x (response_headers resp) = None
      \<and> extractHeadersError x (response_headers resp) = Some e \<longrightarrow>
      snd (receive x (Resolved resp) s) = [OnHeader (response_headers resp), OnClose (Some e)])
   \<and> (\<not> isRead s \<and> \<not> isReading s \<and> readFrameVar s = None
      \<and> extractDetailsError x (response_headers resp) = None
      \<and> extractHeadersError x (response_headers resp) = None
      \<and> extractHttpStatusError x resp = Some e \<longrightarrow>
      snd (receive x (Resolved resp) s) = [OnHeader (response_headers resp), OnClose (Some e)])
   \<and> (\<not> isRead s \<and> \<not> isReading s \<and> readFrameVar s = Some rd
      \<and> readFrame rd = (Inr (TrailerFrame data), rd') \<and> parseTrailerFrame data = Inr t
      \<and> extractDetailsError x t = Some e \<longrightarrow>
      snd (receive x (Resolved resp) s) = [OnTrailer t, OnClose (Some e)])
   \<and> (\<not> isRead s \<and> \<not> isReading s \<and> readFrameVar s = Some rd
      \<and> readFrame rd = (Inr (TrailerFrame data), rd') \<and> parseTrailerFrame data = Inr t
      \<and> extractDetailsError x t = None \<longrightarrow>
      snd (receive x (Resolved resp) s) = [OnTrailer t, OnClose (extractHeadersError x t)])
   \<and> (\<not> isRead s \<and> \<not> isReading s \<and> readFrameVar s = None
      \<and> extractDetailsError x (response_headers resp) = None
      \<and> extractHeadersError x (response_headers resp) = None
      \<and> extractHttpStatusError x resp = None
      \<and> body resp = Some (Inr strm)
      \<and> readFrame (createFrameReader strm) = (Inr (TrailerFrame data), rd')
      \<and> parseTrailerFrame data = Inr t
      \<and> extractDetailsError x t = Some e \<longrightarrow>
      snd (receive x (Resolved resp) s)
        = [OnHeader (response_headers resp), OnTrailer t, OnClose (Some e)])
   \<and> (\<not> isRead s \<and> \<not> isReading s \<and> readFrameVar s = None
      \<and> extractDetailsError x (response_headers resp) = None
      \<and> extractHeadersError x (response_headers resp) = None
      \<and> extractHttpStatusError x resp = None
      \<and> body resp = Some (Inr strm)
      \<and> readFrame (createFrameReader strm) = (Inr (TrailerFrame data), rd')
      \<and> parseTrailerFrame data = Inr t
      \<and> extractDetailsError x t = None \<longrightarrow>
      snd (receive x (Resolved resp) s)
        = [OnHeader (response_headers resp), OnTrailer t, OnClose (extractHeadersError x t)])
   \<and> (Headers_get h ''grpc-status-details-bin'' = Some b \<and> parseBinaryHeader x b = Some st
      \<and> code st \<noteq> StatusCode_Ok \<longrightarrow>
      extractDetailsError x h = Some (ConnectError (message st) (Some (code st)) (Some (details st))))"
proof (intro conjI impI)
  assume "\<not> isRead s \<and> \<not> isReading s \<and> readFrameVar s = None
      \<and> extractDetailsError x (response_headers resp) = Some e"
  then show "snd (receive x (Resolved resp) s) = [OnHeader (response_headers resp), OnClose (Some e)]"
    by (intro receive_first) (simp_all add: nullish_def)
next
  assume "\<not> isRead s \<and> \<not> isReading s \<and> readFrameVar s = None
      \<and> extractDetailsError x (response_headers resp) = None
      \<and> extractHeadersError x (response_headers resp) = Some e"
  then show "snd (receive x (Resolved resp) s) = [OnHeader (response_headers resp), OnClose (Some e)]"
    by (intro receive_first) (simp_all add: nullish_def)
next
  assume "\<not> isRead s \<and> \<not> isReading s \<and> readFrameVar s = None
      \<and> extractDetailsError x (response_headers resp) = None
      \<and> extractHeadersError x (response_headers resp) = None
      \<and> extractHttpStatusError x resp = Some e"
  then show "snd (receive x (Resolved resp) s) = [OnHeader (response_headers resp), OnClose (Some e)]"
    by (intro receive_first) (simp_all add: nullish_def)
next
  assume a: "\<not> isRead s \<and> \<not> isReading s \<and> readFrameVar s = Some rd
      \<and> readFrame rd = (Inr (TrailerFrame data), rd') \<and> parseTrailerFrame data = Inr t
      \<and> extractDetailsError x t = Some e"
  then have "snd (receive x (Resolved resp) s)
     = [OnTrailer t, OnClose (nullish (extractDetailsError x t) (extractHeadersError x t))]"
    by (intro receive_trailer [where rd = rd and data = data and rd' = rd']) simp_all
  with a show "snd (receive x (Resolved resp) s) = [OnTrailer t, OnClose (Some e)]"
    by (simp add: nullish_def)
next
  assume a: "\<not> isRead s \<and> \<not> isReading s \<and> readFrameVar s = Some rd
      \<and> readFrame rd = (Inr (TrailerFrame data), rd') \<and> parseTrailerFrame data = Inr t
      \<and> extractDetailsError x t = None"
  then have "snd (receive x (Resolved resp) s)
     = [OnTrailer t, OnClose (nullish (extractDetailsError x t) (extractHeadersError x t))]"
    by (intro receive_trailer [where rd = rd and data = data and rd' = rd']) simp_all
  with a show "snd (receive x (Resolved resp) s) = [OnTrailer t, OnClose (extractHeadersError x t)]"
    by (simp add: nullish_def)
next
  assume a: "\<not> isRead s \<and> \<not> isReading s \<and> readFrameVar s = None
      \<and> extractDetailsError x (response_headers resp) = None
      \<and> extractHeadersError x (response_headers resp) = None
      \<and> extractHttpStatusError x resp = None
      \<and> body resp = Some (Inr strm)
      \<and> readFrame (createFrameReader strm) = (Inr (TrailerFrame data), rd')
      \<and> parseTrailerFrame data = Inr t
      \<and> extractDetailsError x t = Some e"
  then have "snd (receive x (Resolved resp) s)
     = [OnHeader (response_headers resp), OnTrailer t,
        OnClose (nullish (extractDetailsError x t) (extractHeadersError x t))]"
    by (intro receive_first_trailer [where st = strm and data = data and rd' = rd'])
      (simp_all add: nullish_def)
  with a show "snd (receive x (Resolved resp) s)
      = [OnHeader (response_headers resp), OnTrailer t, OnClose (Some e)]"
    by (simp add: nullish_def)
next
  assume a: "\<not> isRead s \<and> \<not> isReading s \<and> readFrameVar s = None
      \<and> extractDetailsError x (response_headers resp) = None
      \<and> extractHeadersError x (response_headers resp) = None
      \<and> extractHttpStatusError x resp = None
      \<and> body resp = Some (Inr strm)
      \<and> readFrame (createFrameReader strm) = (Inr (TrailerFrame data), rd')
      \<and> parseTrailerFrame data = Inr t
      \<and> extractDetailsError x t = None"
  then have "snd (receive x (Resolved resp) s)
     = [OnHeader (response_headers resp), OnTrailer t,
        OnClose (nullish (extractDetailsError x t) (extractHeadersError x t))]"
    by (intro receive_first_trailer [where st = strm and data = data and rd' = rd'])
      (simp_all add: nullish_def)
  with a show "snd (receive x (Resolved resp) s)
      = [OnHeader (response_headers resp), OnTrailer t, OnClose (extractHeadersError x t)]"
    by (simp add: nullish_def)
next
  assume "Headers_get h ''grpc-status-details-bin'' = Some b \<and> parseBinaryHeader x b = Some st
      \<and> code st \<noteq> StatusCode_Ok"
  then show "extractDetailsError x h
      = Some (ConnectError (message st) (Some (code st)) (Some (details st)))"
    by (simp add: extractDetailsError_def)
qed


theorem error_precedence_witness:
  "snd (receive example_externals
          (Resolved \<lparr>status = 200,
             response_headers = [(''grpc-status'', ''2''), (''grpc-status-details-bin'', ''CAcSBmRlbmllZA=='')],
             body = None\<rparr>) createResponse)
     = [OnHeader [(''grpc-status'', ''2''), (''grpc-status-details-bin'', ''CAcSBmRlbmllZA=='')],
        OnClose (Some (ConnectError ''denied'' (Some 7) (Some [])))]
   \<and> snd (receive example_externals
          (Resolved \<lparr>status = 401, response_headers = [(''grpc-status'', ''5'')], body = None\<rparr>)
          createResponse)
     = [OnHeader [(''grpc-status'', ''5'')], OnClose (Some (ConnectError [] (Some 5) None))]
   \<and> snd (receive example_externals
          (Resolved \<lparr>status = 401, response_headers = [], body = None\<rparr>) createResponse)
     = [OnHeader [], OnClose (Some (ConnectError [] (Some 2) None))]
   \<and> snd (receive example_externals (example_response [])
          \<lparr>isReading = False, isRead = False,
           readFrameVar = Some ([], [[0x80, 0, 0, 0, 0] @ map of_char
             (''grpc-status: 2'' @ [CHR 0x0D, CHR 0x0A]
               @ ''grpc-status-details-bin: CAcSBmRlbmllZA=='' @ [CHR 0x0D, CHR 0x0A])], Done)\<rparr>)
     = [OnTrailer [(''grpc-status'', ''2''), (''grpc-status-details-bin'', ''CAcSBmRlbmllZA=='')],
        OnClose (Some (ConnectError ''denied'' (Some 7) (Some [])))]
   \<and> snd (receive example_externals (example_response [])
          \<lparr>isReading = False, isRead = False,
           readFrameVar = Some ([], [[0x80, 0, 0, 0, 0] @ map of_char
             (''grpc-status: 5'' @ [CHR 0x0D, CHR 0x0A])], Done)\<rparr>)
     = [OnTrailer [(''grpc-status'', ''5'')], OnClose (Some (ConnectError [] (Some 5) None))]
   \<and> snd (receive example_externals
          (example_response [[0x80, 0, 0, 0, 0] @ map of_char
             (''grpc-status: 2'' @ [CHR 0x0D, CHR 0x0A]
               @ ''grpc-status-details-bin: CAcSBmRlbmllZA=='' @ [CHR 0x0D, CHR 0x0A])])
          createResponse)
     = [OnHeader [],
        OnTrailer [(''grpc-status'', ''2''), (''grpc-status-details-bin'', ''CAcSBmRlbmllZA=='')],
        OnClose (Some (ConnectError ''denied'' (Some 7) (Some [])))]
   \<and> snd (receive example_externals
          (example_response [[0x80, 0, 0, 0, 0] @ map of_char
             (''grpc-status: 5'' @ [CHR 0x0D, CHR 0x0A]
               @ ''grpc-message: not%20found'' @ [CHR 0x0D, CHR 0x0A])])
          createResponse)
     = [OnHeader [],
        OnTrailer [(''grpc-status'', ''5''), (''grpc-message'', ''not%20found'')],
        OnClose (Some (ConnectError ''not%20found'' (Some 5) None))]"
proof -
  let ?x = example_externals
  let ?both = "[(''grpc-status'', ''2''), (''grpc-status-details-bin'', ''CAcSBmRlbmllZA=='')]"
  let ?five = "[(''grpc-status'', ''5'')]"
  let ?found = "[(''grpc-status'', ''5''), (''grpc-message'', ''not%20found'')]"
  let ?denied = "ConnectError ''denied'' (Some 7) (Some [])"
  let ?r1 = "\<lparr>status = 200, response_headers = ?both, body = None\<rparr>"
  let ?r2 = "\<lparr>status = 401, response_headers = ?five, body = None\<rparr>"
  let ?r3 = "\<lparr>status = 401, response_headers = [], body = None\<rparr>"
  let ?d4 = "map of_char (''grpc-status: 2'' @ [CHR 0x0D, CHR 0x0A]
               @ ''grpc-status-details-bin: CAcSBmRlbmllZA=='' @ [CHR 0x0D, CHR 0x0A]) :: bytes"
  let ?d5 = "map of_char (''grpc-status: 5'' @ [CHR 0x0D, CHR 0x0A]) :: bytes"
  let ?d7 = "map of_char (''grpc-status: 5'' @ [CHR 0x0D, CHR 0x0A]
               @ ''grpc-message: not%20found'' @ [CHR 0x0D, CHR 0x0A]) :: bytes"
  let ?rd4 = "([], [[0x80, 0, 0, 0, 0] @ ?d4], Done) :: reader"
  let ?rd5 = "([], [[0x80, 0, 0, 0, 0] @ ?d5], Done) :: reader"
  let ?s4 = "\<lparr>isReading = False, isRead = False, readFrameVar = Some ?rd4\<rparr>"
  let ?s5 = "\<lparr>isReading = False, isRead = False, readFrameVar = Some ?rd5\<rparr>"
  let ?st6 = "([[0x80, 0, 0, 0, 0] @ ?d4], Done) :: stream"
  let ?st7 = "([[0x80, 0, 0, 0, 0] @ ?d7], Done) :: stream"
  let ?r6 = "\<lparr>status = 200, response_headers = [], body = Some (Inr ?st6)\<rparr>"
  let ?r7 = "\<lparr>status = 200, response_headers = [], body = Some (Inr ?st7)\<rparr>"
  have p0: "Headers_get ?both ''grpc-status-details-bin'' = Some ''CAcSBmRlbmllZA==''
      \<and> parseBinaryHeader ?x ''CAcSBmRlbmllZA=='' = Some (Status 7 ''denied'' [])
      \<and> code (Status 7 ''denied'' []) \<noteq> StatusCode_Ok"
    by code_simp
  from error_precedence [where x = ?x and h = ?both and b = "''CAcSBmRlbmllZA==''"
      and st = "Status 7 ''denied'' []"] p0
  have details: "extractDetailsError ?x ?both = Some ?denied"
    by simp
  have p1: "\<not> isRead createResponse \<and> \<not> isReading createResponse \<and> readFrameVar createResponse = None
      \<and> extractDetailsError ?x (response_headers ?r1) = Some ?denied"
    using details by (simp add: createResponse_def)
  have p2: "\<not> isRead createResponse \<and> \<not> isReading createResponse \<and> readFrameVar createResponse = None
      \<and> extractDetailsError ?x (response_headers ?r2) = None
      \<and> extractHeadersError ?x (response_headers ?r2) = Some (ConnectError [] (Some 5) None)"
    by code_simp
  have p3: "\<not> isRead createResponse \<and> \<not> isReading createResponse \<and> readFrameVar createResponse = None
      \<and> extractDetailsError ?x (response_headers ?r3) = None
      \<and> extractHeadersError ?x (response_headers ?r3) = None
      \<and> extractHttpStatusError ?x ?r3 = Some (ConnectError [] (Some 2) None)"
    by code_simp
  have p4: "\<not> isRead ?s4 \<and> \<not> isReading ?s4 \<and> readFrameVar ?s4 = Some ?rd4
      \<and> readFrame ?rd4 = (Inr (TrailerFrame ?d4), [], [], Done)
      \<and> parseTrailerFrame ?d4 = Inr ?both"
    by code_simp
  have p5: "\<not> isRead ?s5 \<and> \<not> isReading ?s5 \<and> readFrameVar ?s5 = Some ?rd5
      \<and> readFrame ?rd5 = (Inr (TrailerFrame ?d5), [], [], Done)
      \<and> parseTrailerFrame ?d5 = Inr ?five
      \<and> extractDetailsError ?x ?five = None
      \<and> extractHeadersError ?x ?five = Some (ConnectError [] (Some 5) None)"
    by code_simp
  have p6: "\<not> isRead createResponse \<and> \<not> isReading createResponse \<and> readFrameVar createResponse = None
      \<and> extractDetailsError ?x (response_headers ?r6) = None
      \<and> extractHeadersError ?x (response_headers ?r6) = None
      \<and> extractHttpStatusError ?x ?r6 = None
      \<and> body ?r6 = Some (Inr ?st6)
      \<and> readFrame (createFrameReader ?st6) = (Inr (TrailerFrame ?d4), [], [], Done)
      \<and> parseTrailerFrame ?d4 = Inr ?both"
    by code_simp
  have p7: "\<not> isRead createResponse \<and> \<not> isReading createResponse \<and> readFrameVar createResponse = None
      \<and> extractDetailsError ?x (response_headers ?r7) = None
      \<and> extractHeadersError ?x (response_headers ?r7) = None
      \<and> extractHttpStatusError ?x ?r7 = None
      \<and> body ?r7 = Some (Inr ?st7)
      \<and> readFrame (createFrameReader ?st7) = (Inr (TrailerFrame ?d7), [], [], Done)
      \<and> parseTrailerFrame ?d7 = Inr ?found
      \<and> extractDetailsError ?x ?found = None
      \<and> extractHeadersError ?x ?found = Some (ConnectError ''not%20found'' (Some 5) None)"
    by code_simp
  have w1: "snd (receive ?x (Resolved ?r1) createResponse) = [OnHeader ?both, OnClose (Some ?denied)]"
    using error_precedence [where x = ?x and s = createResponse and resp = ?r1 and e = ?denied] p1
    by simp
  have w2: "snd (receive ?x (Resolved ?r2) createResponse)
      = [OnHeader ?five, OnClose (Some (ConnectError [] (Some 5) None))]"
    using error_precedence [where x = ?x and s = createResponse and resp = ?r2
        and e = "ConnectError [] (Some 5) None"] p2
    by simp
  have w3: "snd (receive ?x (Resolved ?r3) createResponse)
      = [OnHeader [], OnClose (Some (ConnectError [] (Some 2) None))]"
    using error_precedence [where x = ?x and s = createResponse and resp = ?r3
        and e = "ConnectError [] (Some 2) None"] p3
    by simp
  have w4: "snd (receive ?x (example_response []) ?s4) = [OnTrailer ?both, OnClose (Some ?denied)]"
    using error_precedence [where x = ?x and s = ?s4 and rd = ?rd4 and data = ?d4
        and rd' = "([], [], Done)" and t = ?both and e = ?denied
        and resp = "\<lparr>status = 200, response_headers = [], body = Some (Inr ([], Done))\<rparr>"]
      p4 details
    by (simp add: example_response_def)
  have w5: "snd (receive ?x (example_response []) ?s5)
      = [OnTrailer ?five, OnClose (Some (ConnectError [] (Some 5) None))]"
    using error_precedence [where x = ?x and s = ?s5 and rd = ?rd5 and data = ?d5
        and rd' = "([], [], Done)" and t = ?five
        and resp = "\<lparr>status = 200, response_headers = [], body = Some (Inr ([], Done))\<rparr>"]
      p5
    by (simp add: example_response_def)
  have w6: "snd (receive ?x (Resolved ?r6) createResponse)
      = [OnHeader [], OnTrailer ?both, OnClose (Some ?denied)]"
    using error_precedence [where x = ?x and s = createResponse and resp = ?r6 and strm = ?st6
        and data = ?d4 and rd' = "([], [], Done)" and t = ?both and e = ?denied]
      p6 details
    by simp
  have w7: "snd (receive ?x (Resolved ?r7) createResponse)
      = [OnHeader [], OnTrailer ?found, OnClose (Some (ConnectError ''not%20found'' (Some 5) None))]"
    using error_precedence [where x = ?x and s = createResponse and resp = ?r7 and strm = ?st7
        and data = ?d7 and rd' = "([], [], Done)" and t = ?found]
      p7
    by simp
  from w1 w2 w3 w4 w5 w6 w7 show ?thesis
    unfolding example_response_def by blast
qed


end
